theory Spec2Isabelle
  imports Main
begin

section \<open>Paths\<close>

text \<open>
  The tool builds every path with Node's \<^verbatim>\<open>path.join\<close> and \<^verbatim>\<open>path.dirname\<close>.
  They are modelled in their POSIX variant, on strings of 8-bit characters.
\<close>

type_synonym path = string

fun splitOn :: "char \<Rightarrow> string \<Rightarrow> string list" where
  "splitOn c [] = [[]]"
| "splitOn c (x # xs) =
     (if x = c then [] # splitOn c xs
      else (case splitOn c xs of
              [] \<Rightarrow> [[x]]
            | s # ss \<Rightarrow> (x # s) # ss))"

fun joinWith :: "string \<Rightarrow> string list \<Rightarrow> string" where
  "joinWith sep [] = []"
| "joinWith sep [s] = s"
| "joinWith sep (s # t # ss) = s @ sep @ joinWith sep (t # ss)"

text \<open>
  \<^verbatim>\<open>normalizeString\<close> of Node's path module, on the list of segments: empty segments
  and \<^verbatim>\<open>.\<close> are dropped, \<^verbatim>\<open>..\<close> removes the segment before it (or is kept, when
  the path is relative and nothing is left to remove).
\<close>

fun normalizeSegs :: "bool \<Rightarrow> string list \<Rightarrow> string list \<Rightarrow> string list" where
  "normalizeSegs allowAboveRoot res [] = res"
| "normalizeSegs allowAboveRoot res (s # ss) =
     (if s = [] \<or> s = ''.'' then normalizeSegs allowAboveRoot res ss
      else if s = ''..'' then
        (if res \<noteq> [] \<and> last res \<noteq> ''..'' then normalizeSegs allowAboveRoot (butlast res) ss
         else if allowAboveRoot then normalizeSegs allowAboveRoot (res @ [''..'']) ss
         else normalizeSegs allowAboveRoot res ss)
      else normalizeSegs allowAboveRoot (res @ [s]) ss)"

definition path_normalize :: "path \<Rightarrow> path" where
  "path_normalize p =
     (if p = [] then ''.''
      else
        let isAbsolute = (hd p = CHR ''/'');
            trailingSeparator = (last p = CHR ''/'');
            r = joinWith ''/'' (normalizeSegs (\<not> isAbsolute) [] (splitOn CHR ''/'' p))
        in if r = [] then (if isAbsolute then ''/'' else if trailingSeparator then ''./'' else ''.'')
           else (if isAbsolute then ''/'' else []) @ r @ (if trailingSeparator then ''/'' else []))"

definition path_joinl :: "path list \<Rightarrow> path" where
  "path_joinl args =
     (let parts = filter (\<lambda>a. a \<noteq> []) args
      in if parts = [] then ''.'' else path_normalize (joinWith ''/'' parts))"

definition path_join :: "path \<Rightarrow> path \<Rightarrow> path" where
  "path_join a b = path_joinl [a, b]"

text \<open>
  \<^verbatim>\<open>path.dirname\<close>: trailing slashes are skipped, the path is cut before the last
  slash that follows them; the first character is never looked at.
\<close>

definition path_dirname :: "path \<Rightarrow> path" where
  "path_dirname p =
     (if p = [] then ''.''
      else
        let hasRoot = (hd p = CHR ''/'');
            rest = dropWhile (\<lambda>c. c \<noteq> CHR ''/'') (dropWhile (\<lambda>c. c = CHR ''/'') (rev (tl p)))
        in if rest = [] then (if hasRoot then ''/'' else ''.'')
           else if hasRoot \<and> length rest = 1 then ''//''
           else take (length rest) p)"

definition path_resolve :: "path \<Rightarrow> path \<Rightarrow> path" where
  "path_resolve cwd p =
     (let full = (if p \<noteq> [] \<and> hd p = CHR ''/'' then p else cwd @ ''/'' @ p)
      in ''/'' @ joinWith ''/'' (normalizeSegs False [] (splitOn CHR ''/'' full)))"

text \<open>\<open>isUnder d q\<close>: \<open>q\<close> names an entry below the directory \<open>d\<close>.\<close>

definition isUnder :: "path \<Rightarrow> path \<Rightarrow> bool" where
  "isUnder d q = (length d < length q \<and> take (length d + 1) q = d @ ''/'')"

section \<open>The outside world: file system, network, terminal\<close>

text \<open>
  The file system is a map from paths to entries. Every call of the \<^verbatim>\<open>fs-extra\<close>
  library (and of \<^verbatim>\<open>fetch\<close> and \<^verbatim>\<open>tar\<close>) is appended to a log together with its
  outcome, in the way the mocks of the repository's tests record calls; the log is the
  trace that the statements "no symlink call" and "no mutation" are about. The outcome
  \<open>NotOk\<close> is that of a \<^verbatim>\<open>fetch\<close> whose response arrives with \<^verbatim>\<open>response.ok\<close> false.
\<close>

text \<open>
  JSON values of the configuration document. The program never computes with a number;
  it only tests it for truth and puts it into a string, so a number is kept as the text
  that JavaScript prints for it.
\<close>

datatype json = JString string | JNumber string | JBool bool | JNull

datatype node =
    Directory
  | RegularFile
  | Archive "path list"
  | SymlinkTo path
  | JsonFile "string \<rightharpoonup> json"

datatype call =
    PathExists path
  | Remove path
  | EnsureDir path
  | Symlink path path
  | Copy path path
  | ReadJson path
  | WriteJson path "string \<rightharpoonup> json"
  | WriteFile path "path list"
  | TarExtract path path
  | Fetch string

datatype outcome = Ok | NotOk | Threw string

record world =
  files :: "path \<rightharpoonup> node"
  calls :: "(call \<times> outcome) list"

text \<open>A thrown JavaScript \<^verbatim>\<open>Error\<close> with its message, or \<^verbatim>\<open>process.exit(code)\<close>.\<close>

datatype exn = Error string | ProcessExit nat

text \<open>The answer of \<^verbatim>\<open>fetch\<close>: the promise rejects (network error), or a response arrives.\<close>

datatype fetched = NetworkError string | Response bool "path list"

text \<open>The answer of an interactive prompt: the user aborts, or gives a value.\<close>

datatype 'a answer = Cancelled | Answered 'a

text \<open>
  What the program cannot decide is read from the environment: the platform, the
  directories of the process, the clock, which library calls throw (\<open>faults\<close>, with the
  message of the error, as a function of the world at the moment of the call), what the
  network answers, what the scanners find and what the user types.
\<close>

datatype ArtifactType = Skills | Rules | Commands | Agents

record item =
  item_id :: string
  item_description :: string
  item_path :: path

record env =
  platform :: string
  cwd :: path
  homedir :: path
  tmpdir :: path
  now :: "world \<Rightarrow> nat"
  faults :: "world \<Rightarrow> call \<Rightarrow> string option"
  fetchAnswer :: "world \<Rightarrow> string \<Rightarrow> fetched"
  scanResult :: "ArtifactType \<Rightarrow> path \<Rightarrow> item list"
  chosenTargets :: "string list answer"
  addCustom :: "bool answer"
  customPath :: "string answer"
  chosenTypes :: "ArtifactType list answer"
  chosenItems :: "ArtifactType \<Rightarrow> string list answer"
  confirmed :: "bool answer"

text \<open>
  What a symbolic link at \<open>link\<close> with content \<open>s\<close> points to: \<open>s\<close> itself when it is
  absolute, otherwise \<open>s\<close> taken from the directory of the link.
\<close>

definition linkTarget :: "path \<Rightarrow> path \<Rightarrow> path" where
  "linkTarget link s = (if s \<noteq> [] \<and> hd s = CHR ''/'' then s else path_join (path_dirname link) s)"

text \<open>
  \<^verbatim>\<open>stat\<close>: the entry that a path leads to when symbolic links are followed. A link
  whose target is missing leads nowhere, and so does a chain of more links than the
  system follows (\<^verbatim>\<open>ELOOP\<close>, 40 links). Links in the directories above the entry are
  not modelled: a path is looked up as it is written.
\<close>

fun nodeAt :: "nat \<Rightarrow> (path \<rightharpoonup> node) \<Rightarrow> path \<Rightarrow> node option" where
  "nodeAt 0 fs p = None"
| "nodeAt (Suc hops) fs p =
     (case fs p of
        None \<Rightarrow> None
      | Some (SymlinkTo s) \<Rightarrow> nodeAt hops fs (linkTarget p s)
      | Some n \<Rightarrow> Some n)"

definition stat :: "(path \<rightharpoonup> node) \<Rightarrow> path \<Rightarrow> node option" where
  "stat fs p = nodeAt 41 fs p"

definition isDirectory :: "(path \<rightharpoonup> node) \<Rightarrow> path \<Rightarrow> bool" where
  "isDirectory fs p = (stat fs p = Some Directory)"

text \<open>
  The path that a write to \<open>p\<close> lands on: \<open>p\<close> itself, or what a chain of symbolic links
  at \<open>p\<close> ends in, which may be a path where nothing is yet; nothing when the chain is
  longer than the system follows.
\<close>

fun realpathAt :: "nat \<Rightarrow> (path \<rightharpoonup> node) \<Rightarrow> path \<Rightarrow> path option" where
  "realpathAt 0 fs p = None"
| "realpathAt (Suc hops) fs p =
     (case fs p of
        Some (SymlinkTo s) \<Rightarrow> realpathAt hops fs (linkTarget p s)
      | _ \<Rightarrow> Some p)"

definition realpath :: "(path \<rightharpoonup> node) \<Rightarrow> path \<Rightarrow> path option" where
  "realpath fs p = realpathAt 41 fs p"

definition writeAt :: "path \<Rightarrow> node \<Rightarrow> (path \<rightharpoonup> node) \<Rightarrow> (path \<rightharpoonup> node)" where
  "writeAt p n fs = (case realpath fs p of None \<Rightarrow> fs | Some q \<Rightarrow> fs(q \<mapsto> n))"

definition writeRefused :: "path \<Rightarrow> (path \<rightharpoonup> node) \<Rightarrow> string option" where
  "writeRefused p fs =
     (case realpath fs p of
        None \<Rightarrow> Some ''ELOOP: too many symbolic links encountered''
      | Some q \<Rightarrow>
          if fs q = Some Directory then Some ''EISDIR: illegal operation on a directory''
          else if \<not> isDirectory fs (path_dirname q) then Some ''ENOENT: no such file or directory''
          else None)"

text \<open>
  \<^verbatim>\<open>fs.pathExists\<close> is \<^verbatim>\<open>fs.access\<close> with every error turned into \<open>false\<close>: it never
  throws, and it answers whether the path can be reached with symbolic links followed.
  A dangling symbolic link is an entry that is there and for which the answer is \<open>false\<close>.
  The probe is logged.
\<close>

definition pathExists :: "path \<Rightarrow> world \<Rightarrow> bool \<times> world" where
  "pathExists p w = (stat (files w) p \<noteq> None, w\<lparr>calls := calls w @ [(PathExists p, Ok)]\<rparr>)"

text \<open>The effect of a library call that succeeds, on the file system.\<close>

definition copyTree :: "path \<Rightarrow> path \<Rightarrow> (path \<rightharpoonup> node) \<Rightarrow> (path \<rightharpoonup> node)" where
  "copyTree s t fs =
     (\<lambda>q. if q = t then fs s
          else if isUnder t q then
            (case fs (s @ drop (length t) q) of None \<Rightarrow> fs q | Some n \<Rightarrow> Some n)
          else fs q)"

fun ancestors :: "nat \<Rightarrow> path \<Rightarrow> path list" where
  "ancestors 0 p = []"
| "ancestors (Suc n) p =
     (let d = path_dirname p in if d = p then [] else d # ancestors n d)"

definition mkdirs :: "path \<Rightarrow> (path \<rightharpoonup> node) \<Rightarrow> (path \<rightharpoonup> node)" where
  "mkdirs d fs =
     (\<lambda>q. if (q = d \<or> q \<in> set (ancestors (length d) d)) \<and> fs q = None
          then Some Directory else fs q)"

text \<open>
  \<^verbatim>\<open>tar.extract\<close> with \<^verbatim>\<open>strip: 1\<close>: every entry loses its first path component (an
  entry with nothing left is skipped) and is written below the directory.
\<close>

definition stripFirst :: "path \<Rightarrow> path option" where
  "stripFirst entry =
     (case filter (\<lambda>seg. seg \<noteq> []) (splitOn CHR ''/'' entry) of
        [] \<Rightarrow> None
      | [root] \<Rightarrow> None
      | root # seg # segs \<Rightarrow> Some (joinWith ''/'' (seg # segs)))"

fun extractInto :: "path \<Rightarrow> path list \<Rightarrow> (path \<rightharpoonup> node) \<Rightarrow> (path \<rightharpoonup> node)" where
  "extractInto dir [] fs = fs"
| "extractInto dir (entry # entries) fs =
     (case stripFirst entry of
        None \<Rightarrow> extractInto dir entries fs
      | Some rel \<Rightarrow> extractInto dir entries (fs(path_join dir rel \<mapsto> RegularFile)))"

fun effect :: "call \<Rightarrow> (path \<rightharpoonup> node) \<Rightarrow> (path \<rightharpoonup> node)" where
  "effect (PathExists p) fs = fs"
| "effect (Remove p) fs = (\<lambda>q. if q = p \<or> isUnder p q then None else fs q)"
| "effect (EnsureDir d) fs = mkdirs d fs"
| "effect (Symlink s t) fs = fs(t \<mapsto> SymlinkTo s)"
| "effect (Copy s t) fs = copyTree s t fs"
| "effect (ReadJson p) fs = fs"
| "effect (WriteJson p doc) fs = writeAt p (JsonFile doc) fs"
| "effect (WriteFile p entries) fs = writeAt p (Archive entries) fs"
| "effect (TarExtract dir file) fs =
     (case stat fs file of
        Some (Archive entries) \<Rightarrow> extractInto dir entries fs
      | _ \<Rightarrow> fs)"
| "effect (Fetch url) fs = fs"

text \<open>
  A call throws when the environment says so, and also where the library always does:
  \<^item> \<^verbatim>\<open>ensureDir\<close> when the path or a directory above it is there and is not a directory;
  \<^item> \<^verbatim>\<open>symlink\<close> onto any entry, a dangling link included (\<^verbatim>\<open>EEXIST\<close>), or into a
    directory that is not there;
  \<^item> \<^verbatim>\<open>copy\<close> of a missing source (\<^verbatim>\<open>ENOENT\<close>), of a directory onto an entry that is not
    a directory, and of anything else onto a directory;
  \<^item> \<^verbatim>\<open>readJson\<close> of what is missing or is not a JSON document, symbolic links
    followed;
  \<^item> \<^verbatim>\<open>writeJson\<close> and \<^verbatim>\<open>writeFile\<close>, which write where symbolic links lead, onto a
    directory or into a directory that is not there;
  \<^item> \<^verbatim>\<open>tar.extract\<close> of a file that is not an archive.
\<close>

definition refused :: "call \<Rightarrow> (path \<rightharpoonup> node) \<Rightarrow> string option" where
  "refused c fs =
     (case c of
        EnsureDir d \<Rightarrow>
          (if fs d \<noteq> None \<and> \<not> isDirectory fs d then Some ''EEXIST: file already exists''
           else if list_ex (\<lambda>q. fs q \<noteq> None \<and> \<not> isDirectory fs q) (ancestors (length d) d)
           then Some ''ENOTDIR: not a directory''
           else None)
      | Symlink s t \<Rightarrow>
          (if fs t \<noteq> None then Some ''EEXIST: file already exists''
           else if \<not> isDirectory fs (path_dirname t) then Some ''ENOENT: no such file or directory''
           else None)
      | Copy s t \<Rightarrow>
          (if fs s = None then Some ''ENOENT: no such file or directory''
           else if fs s = Some Directory \<and> fs t \<noteq> None \<and> fs t \<noteq> Some Directory
           then Some ''Cannot overwrite non-directory with directory''
           else if fs s \<noteq> Some Directory \<and> fs t = Some Directory
           then Some ''Cannot overwrite directory with non-directory''
           else None)
      | ReadJson p \<Rightarrow>
          (case stat fs p of
             None \<Rightarrow> Some ''ENOENT: no such file or directory''
           | Some (JsonFile doc) \<Rightarrow> None
           | Some Directory \<Rightarrow> Some ''EISDIR: illegal operation on a directory''
           | Some other \<Rightarrow> Some ''Unexpected token in JSON'')
      | WriteJson p doc \<Rightarrow> writeRefused p fs
      | WriteFile p entries \<Rightarrow> writeRefused p fs
      | TarExtract dir file \<Rightarrow>
          (case stat fs file of
             Some (Archive entries) \<Rightarrow> None
           | other \<Rightarrow> Some ''ENOENT: no such file or directory'')
      | _ \<Rightarrow> None)"

definition perform :: "env \<Rightarrow> call \<Rightarrow> world \<Rightarrow> (exn + unit) \<times> world" where
  "perform e c w =
     (case (case faults e w c of Some msg \<Rightarrow> Some msg | None \<Rightarrow> refused c (files w)) of
        Some msg \<Rightarrow> (Inl (Error msg), w\<lparr>calls := calls w @ [(c, Threw msg)]\<rparr>)
      | None \<Rightarrow> (Inr (), \<lparr>files = effect c (files w), calls = calls w @ [(c, Ok)]\<rparr>))"

text \<open>The calls made between two worlds.\<close>

definition callsSince :: "world \<Rightarrow> world \<Rightarrow> (call \<times> outcome) list" where
  "callsSince w w' = drop (length (calls w)) (calls w')"

text \<open>The requests to the network among them.\<close>

fun isFetch :: "call \<Rightarrow> bool" where
  "isFetch (Fetch url) = True"
| "isFetch other = False"

definition fetchesSince :: "world \<Rightarrow> world \<Rightarrow> (call \<times> outcome) list" where
  "fetchesSince w w' = filter (\<lambda>c. isFetch (fst c)) (callsSince w w')"

text \<open>Sequencing of two steps, the second skipped when the first throws.\<close>

definition andThen ::
  "('s \<Rightarrow> (exn + 'a) \<times> 's) \<Rightarrow> ('a \<Rightarrow> 's \<Rightarrow> (exn + 'b) \<times> 's) \<Rightarrow> 's \<Rightarrow> (exn + 'b) \<times> 's" where
  "andThen m f s = (case m s of (Inl x, s1) \<Rightarrow> (Inl x, s1) | (Inr a, s1) \<Rightarrow> f a s1)"

section \<open>linkOrCopy (utils/link.ts)\<close>

record LinkResult =
  lr_method :: string
  lr_source :: path
  lr_target :: path
  lr_success :: bool
  lr_error :: "string option"

record LinkOptions =
  lo_method :: "string option"
  lo_force :: "bool option"

definition copyFallback :: "env \<Rightarrow> path \<Rightarrow> path \<Rightarrow> world \<Rightarrow> (exn + LinkResult) \<times> world" where
  "copyFallback e source target =
     andThen (perform e (Copy source target))
       (\<lambda>_ w. (Inr \<lparr>lr_method = ''copy'', lr_source = source, lr_target = target,
                    lr_success = True, lr_error = None\<rparr>, w))"

definition linkOrCopy ::
  "env \<Rightarrow> path \<Rightarrow> path \<Rightarrow> LinkOptions \<Rightarrow> world \<Rightarrow> (exn + LinkResult) \<times> world" where
  "linkOrCopy e source target options =
     (let method = (case lo_method options of None \<Rightarrow> ''symlink'' | Some m \<Rightarrow> m);
          force = (case lo_force options of None \<Rightarrow> False | Some f \<Rightarrow> f)
      in
      andThen
        (\<lambda>w. if force
              then (case pathExists target w of
                      (True, w1) \<Rightarrow> perform e (Remove target) w1
                    | (False, w1) \<Rightarrow> (Inr (), w1))
              else (Inr (), w))
        (\<lambda>_ w.
           case pathExists target w of
             (True, w1) \<Rightarrow>
               (Inr \<lparr>lr_method = method, lr_source = source, lr_target = target,
                     lr_success = False, lr_error = Some ''Target already exists''\<rparr>, w1)
           | (False, w1) \<Rightarrow>
               andThen (perform e (EnsureDir (path_dirname target)))
                 (\<lambda>_ w2.
                    if method = ''symlink'' \<and> platform e \<noteq> ''win32''
                    then (case perform e (Symlink source target) w2 of
                            (Inr _, w3) \<Rightarrow>
                              (Inr \<lparr>lr_method = ''symlink'', lr_source = source, lr_target = target,
                                    lr_success = True, lr_error = None\<rparr>, w3)
                          | (Inl _, w3) \<Rightarrow> copyFallback e source target w3)
                    else copyFallback e source target w2) w1))"

section \<open>Persisted configuration (utils/config.ts)\<close>

text \<open>
  The configuration document is a JSON object; \<^verbatim>\<open>{ ...config, ...updates }\<close> is the
  override of one map by another.
\<close>

type_synonym Config = "string \<rightharpoonup> json"

definition CONFIG_PATH :: "env \<Rightarrow> path" where
  "CONFIG_PATH e = path_joinl [homedir e, ''.config'', ''agent-share'', ''config.json'']"

definition readJson :: "env \<Rightarrow> path \<Rightarrow> world \<Rightarrow> (exn + Config) \<times> world" where
  "readJson e p w =
     (case perform e (ReadJson p) w of
        (Inl x, w1) \<Rightarrow> (Inl x, w1)
      | (Inr _, w1) \<Rightarrow>
          (case stat (files w) p of
             Some (JsonFile doc) \<Rightarrow> (Inr doc, w1)
           | _ \<Rightarrow> (Inl (Error ''Unexpected token in JSON''), w1)))"

definition getConfig :: "env \<Rightarrow> world \<Rightarrow> Config \<times> world" where
  "getConfig e w =
     (case pathExists (CONFIG_PATH e) w of
        (True, w1) \<Rightarrow>
          (case readJson e (CONFIG_PATH e) w1 of
             (Inr doc, w2) \<Rightarrow> (doc, w2)
           | (Inl _, w2) \<Rightarrow> (Map.empty, w2))
      | (False, w1) \<Rightarrow> (Map.empty, w1))"

definition setConfig :: "env \<Rightarrow> Config \<Rightarrow> world \<Rightarrow> (exn + unit) \<times> world" where
  "setConfig e updates w =
     (case getConfig e w of
        (config, w1) \<Rightarrow>
          (let newConfig = config ++ updates
           in andThen (perform e (EnsureDir (path_dirname (CONFIG_PATH e))))
                (\<lambda>_. perform e (WriteJson (CONFIG_PATH e) newConfig)) w1))"

definition showConfig :: "env \<Rightarrow> world \<Rightarrow> (exn + unit) \<times> world" where
  "showConfig e w = (case getConfig e w of (config, w1) \<Rightarrow> (Inr (), w1))"

text \<open>
  The document that is persisted in a world, which is what a read of the configuration
  file gives: empty when there is none to read.
\<close>

definition persisted :: "env \<Rightarrow> world \<Rightarrow> Config" where
  "persisted e w =
     (case stat (files w) (CONFIG_PATH e) of Some (JsonFile doc) \<Rightarrow> doc | _ \<Rightarrow> Map.empty)"

subsection \<open>The config command (commands/config.ts)\<close>

record ConfigOptions =
  co_target :: "string option"
  co_method :: "string option"
  co_show :: bool

text \<open>JavaScript truthiness of an optional string: present and not empty.\<close>

definition truthyStr :: "string option \<Rightarrow> bool" where
  "truthyStr v = (case v of None \<Rightarrow> False | Some s \<Rightarrow> s \<noteq> [])"

definition configCommand :: "env \<Rightarrow> ConfigOptions \<Rightarrow> world \<Rightarrow> (exn + unit) \<times> world" where
  "configCommand e options w =
     (if co_show options \<or> (\<not> truthyStr (co_target options) \<and> \<not> truthyStr (co_method options))
      then showConfig e w
      else
        let updates1 = (if truthyStr (co_target options)
                        then [''defaultTarget'' \<mapsto> JString (the (co_target options))]
                        else Map.empty)
        in if truthyStr (co_method options)
           then (if the (co_method options) \<noteq> ''symlink'' \<and> the (co_method options) \<noteq> ''copy''
                 then (Inl (ProcessExit 1), w)
                 else setConfig e (updates1(''linkMethod'' \<mapsto> JString (the (co_method options)))) w)
           else setConfig e updates1 w)"

section \<open>Source references (utils/repo.ts)\<close>

subsection \<open>Regular expressions with JavaScript's backtracking order\<close>

text \<open>
  The two patterns of \<^verbatim>\<open>parseGitHubUrl\<close> use literals, the greedy \<^verbatim>\<open>+\<close> on a character
  class, the greedy \<^verbatim>\<open>?\<close>, sequencing and capture groups. A class is given by the
  characters it excludes: \<^verbatim>\<open>[^/]\<close> excludes the slash, \<^verbatim>\<open>.\<close> excludes the line
  terminators (of which line feed and carriage return are 8-bit characters).
\<close>

datatype re =
    Chars string
  | PlusNot "char list"
  | Opt re
  | Cat re re
  | Group nat re

type_synonym captures = "nat \<rightharpoonup> string"

text \<open>
  \<open>plusNot ex s k\<close>: one or more characters outside \<open>ex\<close> at the head of \<open>s\<close>, as many as
  possible first, one fewer on each backtrack; \<open>k\<close> continues on what is left.
\<close>

fun plusNot :: "char list \<Rightarrow> string \<Rightarrow> (string \<Rightarrow> captures option) \<Rightarrow> captures option" where
  "plusNot ex [] k = None"
| "plusNot ex (x # xs) k =
     (if x \<in> set ex then None
      else (case plusNot ex xs k of
              Some c \<Rightarrow> Some c
            | None \<Rightarrow> k xs))"

fun matchRe :: "re \<Rightarrow> string \<Rightarrow> captures \<Rightarrow> (string \<Rightarrow> captures \<Rightarrow> captures option) \<Rightarrow> captures option" where
  "matchRe (Chars l) s c k = (if take (length l) s = l then k (drop (length l) s) c else None)"
| "matchRe (PlusNot ex) s c k = plusNot ex s (\<lambda>s'. k s' c)"
| "matchRe (Opt r) s c k =
     (case matchRe r s c k of
        Some c' \<Rightarrow> Some c'
      | None \<Rightarrow> k s c)"
| "matchRe (Cat r1 r2) s c k = matchRe r1 s c (\<lambda>s' c'. matchRe r2 s' c' k)"
| "matchRe (Group n r) s c k =
     matchRe r s c (\<lambda>s' c'. k s' (c'(n \<mapsto> take (length s - length s') s)))"

text \<open>\<^verbatim>\<open>input.match(/^...$/)\<close>: the pattern must cover the whole input.\<close>

definition matchWhole :: "re \<Rightarrow> string \<Rightarrow> captures option" where
  "matchWhole r input = matchRe r input Map.empty (\<lambda>s c. if s = [] then Some c else None)"

text \<open>The language of a pattern, as the grammar that the pattern denotes.\<close>

fun lang :: "re \<Rightarrow> string set" where
  "lang (Chars l) = {l}"
| "lang (PlusNot ex) = {u. u \<noteq> [] \<and> (\<forall>x \<in> set u. x \<notin> set ex)}"
| "lang (Opt r) = insert [] (lang r)"
| "lang (Cat r1 r2) = {u @ v | u v. u \<in> lang r1 \<and> v \<in> lang r2}"
| "lang (Group n r) = lang r"

subsection \<open>parseGitHubUrl\<close>

definition notSlash :: re where
  "notSlash = PlusNot ''/''"

definition anything :: re where
  "anything = PlusNot [CHR 0x0A, CHR 0x0D]"

text \<open>
  \<^verbatim>\<open>/^https?:\/\/github\.com\/([^/]+)\/([^/]+)(?:\/tree\/([^/]+))?(?:\/(.+))?$/\<close>
\<close>

definition urlPattern :: re where
  "urlPattern =
     Cat (Chars ''http'') (Cat (Opt (Chars ''s'')) (Cat (Chars ''://github.com/'')
       (Cat (Group 1 notSlash) (Cat (Chars ''/'') (Cat (Group 2 notSlash)
         (Cat (Opt (Cat (Chars ''/tree/'') (Group 3 notSlash)))
              (Opt (Cat (Chars ''/'') (Group 4 anything)))))))))"

text \<open>\<^verbatim>\<open>/^([^/]+)\/([^/]+)(?:\/(.+))?$/\<close>\<close>

definition shortPattern :: re where
  "shortPattern =
     Cat (Group 1 notSlash) (Cat (Chars ''/'') (Cat (Group 2 notSlash)
       (Opt (Cat (Chars ''/'') (Group 3 anything)))))"

text \<open>
  \<^verbatim>\<open>str.replace(pat, '')\<close> with a string pattern removes the first occurrence of the
  pattern, wherever it is.
\<close>

fun removeFirst :: "string \<Rightarrow> string \<Rightarrow> string" where
  "removeFirst pat [] = []"
| "removeFirst pat (x # xs) =
     (if take (length pat) (x # xs) = pat then drop (length pat) (x # xs)
      else x # removeFirst pat xs)"

record RepoInfo =
  ri_owner :: string
  ri_repo :: string
  ri_branch :: string
  ri_subpath :: "string option"

definition repoInfoOf :: "captures \<Rightarrow> RepoInfo" where
  "repoInfoOf m =
     \<lparr>ri_owner = the (m 1),
      ri_repo = removeFirst ''.git'' (the (m 2)),
      ri_branch = (case m 3 of None \<Rightarrow> ''main'' | Some b \<Rightarrow> if b = [] then ''main'' else b),
      ri_subpath = m 4\<rparr>"

definition parseGitHubUrl :: "string \<Rightarrow> exn + RepoInfo" where
  "parseGitHubUrl input =
     (case matchWhole urlPattern input of
        Some m \<Rightarrow> Inr (repoInfoOf m)
      | None \<Rightarrow>
          (case matchWhole shortPattern input of
             Some m \<Rightarrow> Inr (repoInfoOf m)
           | None \<Rightarrow> Inl (Error (''Invalid GitHub URL: '' @ input))))"

subsection \<open>fetchRepo\<close>

definition digitOf :: "nat \<Rightarrow> char" where
  "digitOf d = ''0123456789'' ! d"

function showNat :: "nat \<Rightarrow> string" where
  "showNat n = (if n < 10 then [digitOf n] else showNat (n div 10) @ [digitOf (n mod 10)])"
  by pat_completeness auto
termination
  by (relation "measure id") auto

declare showNat.simps [simp del]

definition fetch :: "env \<Rightarrow> string \<Rightarrow> world \<Rightarrow> (exn + bool \<times> path list) \<times> world" where
  "fetch e url w =
     (case fetchAnswer e w url of
        NetworkError msg \<Rightarrow> (Inl (Error msg), w\<lparr>calls := calls w @ [(Fetch url, Threw msg)]\<rparr>)
      | Response ok body \<Rightarrow>
          (Inr (ok, body), w\<lparr>calls := calls w @ [(Fetch url, if ok then Ok else NotOk)]\<rparr>))"

definition tarUrl :: "string \<Rightarrow> string \<Rightarrow> string \<Rightarrow> string" where
  "tarUrl owner repo b = ''https://github.com/'' @ owner @ ''/'' @ repo @ ''/archive/'' @ b @ ''.tar.gz''"

text \<open>
  The loop over the branches: \<open>response\<close> is the last response so far; a rejected
  \<^verbatim>\<open>fetch\<close> leaves the loop and the function by its exception.
\<close>

fun tryBranches ::
  "env \<Rightarrow> string \<Rightarrow> string \<Rightarrow> string list \<Rightarrow> (bool \<times> path list) option \<Rightarrow> world
    \<Rightarrow> (exn + (bool \<times> path list) option) \<times> world" where
  "tryBranches e owner repo [] response w = (Inr response, w)"
| "tryBranches e owner repo (b # bs) response w =
     (case fetch e (tarUrl owner repo b) w of
        (Inl x, w1) \<Rightarrow> (Inl x, w1)
      | (Inr r, w1) \<Rightarrow>
          if fst r then (Inr (Some r), w1)
          else tryBranches e owner repo bs (Some r) w1)"

definition fetchRepo :: "env \<Rightarrow> string \<Rightarrow> world \<Rightarrow> (exn + path) \<times> world" where
  "fetchRepo e input w =
     (case pathExists input w of
        (True, w1) \<Rightarrow> (Inr (path_resolve (cwd e) input), w1)
      | (False, w1) \<Rightarrow>
          (case parseGitHubUrl input of
             Inl x \<Rightarrow> (Inl x, w1)
           | Inr info \<Rightarrow>
               (let owner = ri_owner info; repo = ri_repo info; branch = ri_branch info;
                    tempDir = path_joinl [tmpdir e, ''agent-share'',
                                          owner @ ''-'' @ repo @ ''-'' @ showNat (now e w1)];
                    branches = (if branch = ''main'' then [''main'', ''master''] else [branch])
                in andThen (perform e (EnsureDir tempDir))
                     (\<lambda>_. andThen (tryBranches e owner repo branches None)
                        (\<lambda>response w3.
                           case response of
                             None \<Rightarrow>
                               (Inl (Error ''Failed to fetch: Repository not found or not accessible''), w3)
                           | Some (ok, body) \<Rightarrow>
                               if \<not> ok
                               then (Inl (Error ''Failed to fetch: Repository not found or not accessible''), w3)
                               else
                                 (let tarPath = path_join tempDir ''repo.tar.gz''
                                  in andThen (perform e (WriteFile tarPath body))
                                       (\<lambda>_. andThen (perform e (TarExtract tempDir tarPath))
                                          (\<lambda>_. andThen (perform e (Remove tarPath))
                                             (\<lambda>_ w6. (Inr tempDir, w6)))) w3))) w1)))"

section \<open>Targets (utils/targets.ts)\<close>

record TargetConfig =
  tc_name :: string
  tc_skills :: string
  tc_rules :: string
  tc_commands :: string
  tc_agents :: string
  tc_settings :: string

text \<open>
  The table of built-in targets, by its own three keys. (A key that names a member of
  \<^verbatim>\<open>Object.prototype\<close>, such as \<^verbatim>\<open>constructor\<close>, is outside the model.)
\<close>

definition TARGETS :: "string \<Rightarrow> TargetConfig option" where
  "TARGETS key =
     (if key = ''.claude'' then
        Some \<lparr>tc_name = ''Claude Code'', tc_skills = ''.claude/skills'', tc_rules = ''.claude/rules'',
              tc_commands = ''.claude/commands'', tc_agents = ''.claude/agents'',
              tc_settings = ''.claude''\<rparr>
      else if key = ''.cursor'' then
        Some \<lparr>tc_name = ''Cursor'', tc_skills = ''.cursor/skills'', tc_rules = ''.cursor/rules'',
              tc_commands = ''.cursor/commands'', tc_agents = ''.cursor/agents'',
              tc_settings = ''.cursor''\<rparr>
      else if key = ''.agents'' then
        Some \<lparr>tc_name = ''Shared Agents'', tc_skills = ''.agents/skills'', tc_rules = ''.agents/rules'',
              tc_commands = ''.agents/commands'', tc_agents = ''.agents'',
              tc_settings = ''.agents''\<rparr>
      else None)"

definition getTargetConfig :: "string \<Rightarrow> TargetConfig" where
  "getTargetConfig key =
     (case TARGETS key of
        Some config \<Rightarrow> config
      | None \<Rightarrow>
          \<lparr>tc_name = key, tc_skills = key @ ''/skills'', tc_rules = key @ ''/rules'',
           tc_commands = key @ ''/commands'', tc_agents = key @ ''/agents'', tc_settings = key\<rparr>)"

text \<open>\<^verbatim>\<open>config[type]\<close> for one of the four artifact types.\<close>

fun typeDir :: "TargetConfig \<Rightarrow> ArtifactType \<Rightarrow> string" where
  "typeDir config Skills = tc_skills config"
| "typeDir config Rules = tc_rules config"
| "typeDir config Commands = tc_commands config"
| "typeDir config Agents = tc_agents config"

section \<open>Selection with existence check (utils/prompts.ts)\<close>

datatype Mode = Install | Update

text \<open>
  An \<^verbatim>\<open>ExistenceMap\<close> is a JavaScript object keyed by target directory, the matrix a
  \<^verbatim>\<open>Map\<close> keyed by item id: assigning to a key that is there replaces its value in
  place, a new key is appended.
\<close>

type_synonym ExistenceMap = "(path \<times> bool) list"

type_synonym ExistenceMatrix = "(string \<times> ExistenceMap) list"

fun assign :: "'k \<Rightarrow> 'v \<Rightarrow> ('k \<times> 'v) list \<Rightarrow> ('k \<times> 'v) list" where
  "assign k v [] = [(k, v)]"
| "assign k v (p # ps) = (if fst p = k then (k, v) # ps else p # assign k v ps)"

record SelectItemsOptions =
  sio_mode :: Mode
  sio_targetDirs :: "path list"
  sio_selectAll :: "bool option"

text \<open>The inner loop over the target directories, for one item.\<close>

fun probeTargets :: "string \<Rightarrow> path list \<Rightarrow> ExistenceMap \<Rightarrow> world \<Rightarrow> ExistenceMap \<times> world" where
  "probeTargets itemId [] existsMap w = (existsMap, w)"
| "probeTargets itemId (targetDir # dirs) existsMap w =
     (case pathExists (path_join targetDir itemId) w of
        (ex, w1) \<Rightarrow> probeTargets itemId dirs (assign targetDir ex existsMap) w1)"

text \<open>The outer loop over the items.\<close>

fun probeItems :: "item list \<Rightarrow> path list \<Rightarrow> ExistenceMatrix \<Rightarrow> world \<Rightarrow> ExistenceMatrix \<times> world" where
  "probeItems [] targetDirs existsInTargets w = (existsInTargets, w)"
| "probeItems (i # items) targetDirs existsInTargets w =
     (case probeTargets (item_id i) targetDirs [] w of
        (existsMap, w1) \<Rightarrow>
          probeItems items targetDirs (assign (item_id i) existsMap existsInTargets) w1)"

definition existsInAny :: "ExistenceMatrix \<Rightarrow> string \<Rightarrow> bool" where
  "existsInAny existsInTargets itemId =
     (case map_of existsInTargets itemId of
        None \<Rightarrow> False
      | Some m \<Rightarrow> list_ex (\<lambda>v. v) (map snd m))"

text \<open>
  With the flag \<open>selectAll\<close> nobody is asked. Otherwise the user picks ids from the list
  of all items (the hints shown next to them do not enter the result), or aborts, which
  ends the process with code 0.
\<close>

definition selectItemsWithExistenceCheck ::
  "env \<Rightarrow> item list \<Rightarrow> ArtifactType \<Rightarrow> SelectItemsOptions \<Rightarrow> world
    \<Rightarrow> (exn + item list \<times> ExistenceMatrix) \<times> world" where
  "selectItemsWithExistenceCheck e items type options w =
     (case probeItems items (sio_targetDirs options) [] w of
        (existsInTargets, w1) \<Rightarrow>
          if sio_selectAll options = Some True then
            (if sio_mode options = Install
             then (Inr (filter (\<lambda>i. \<not> existsInAny existsInTargets (item_id i)) items,
                        existsInTargets), w1)
             else (Inr (items, existsInTargets), w1))
          else
            (case chosenItems e type of
               Cancelled \<Rightarrow> (Inl (ProcessExit 0), w1)
             | Answered selectedIds \<Rightarrow>
                 (Inr (filter (\<lambda>i. item_id i \<in> set selectedIds) items, existsInTargets), w1)))"

definition selectArtifactTypes :: "env \<Rightarrow> world \<Rightarrow> (exn + ArtifactType list) \<times> world" where
  "selectArtifactTypes e w =
     (case chosenTypes e of
        Cancelled \<Rightarrow> (Inl (ProcessExit 0), w)
      | Answered types \<Rightarrow> (Inr types, w))"

definition selectTargets :: "env \<Rightarrow> world \<Rightarrow> (exn + string list) \<times> world" where
  "selectTargets e w =
     (case chosenTargets e of
        Cancelled \<Rightarrow> (Inl (ProcessExit 0), w)
      | Answered targets \<Rightarrow>
          (case addCustom e of
             Cancelled \<Rightarrow> (Inl (ProcessExit 0), w)
           | Answered True \<Rightarrow>
               (case customPath e of
                  Cancelled \<Rightarrow> (Inl (ProcessExit 0), w)
                | Answered custom \<Rightarrow> (Inr (targets @ [custom]), w))
           | Answered False \<Rightarrow> (Inr targets, w)))"

definition confirmAction :: "env \<Rightarrow> world \<Rightarrow> (exn + bool) \<times> world" where
  "confirmAction e w =
     (case confirmed e of
        Cancelled \<Rightarrow> (Inl (ProcessExit 0), w)
      | Answered proceed \<Rightarrow> (Inr proceed, w))"

section \<open>The install and update commands (commands/install.ts)\<close>

record InstallOptions =
  io_mode :: Mode
  io_skills :: bool
  io_rules :: bool
  io_commands :: bool
  io_agents :: bool
  io_all :: "bool option"
  io_target :: "string option"
  io_method :: "string option"

record InstallSummary =
  sm_target :: string
  sm_targetName :: string
  installed :: nat
  skipped :: nat
  failed :: nat

text \<open>
  The body of the innermost loop (one item, one target): the entry of the existence
  matrix for this pair decides, in install mode, whether the pair is skipped; otherwise
  \<open>linkOrCopy\<close> is called, and a failure result or an exception counts as failed.
\<close>

definition installItem ::
  "env \<Rightarrow> Mode \<Rightarrow> string \<Rightarrow> bool \<Rightarrow> path \<Rightarrow> TargetConfig \<Rightarrow> (ArtifactType \<times> ExistenceMatrix) list
    \<Rightarrow> ArtifactType \<Rightarrow> item \<Rightarrow> InstallSummary \<times> world \<Rightarrow> InstallSummary \<times> world" where
  "installItem e mode method force wd targetConfig existenceMaps type i sw =
     (case sw of
        (summary, w) \<Rightarrow>
          (let targetDir = path_join wd (typeDir targetConfig type);
               existsMap = (case map_of existenceMaps type of
                              None \<Rightarrow> None
                            | Some m \<Rightarrow> map_of m (item_id i));
               existsInThisTarget = (case existsMap of
                                       None \<Rightarrow> None
                                     | Some em \<Rightarrow> map_of em targetDir)
           in if mode = Install \<and> existsInThisTarget = Some True
              then (summary\<lparr>skipped := skipped summary + 1\<rparr>, w)
              else
                (let sourcePath = path_dirname (item_path i);
                     targetPath = path_join targetDir (item_id i)
                 in case linkOrCopy e sourcePath targetPath
                           \<lparr>lo_method = Some method, lo_force = Some force\<rparr> w of
                      (Inr result, w1) \<Rightarrow>
                        if lr_success result
                        then (summary\<lparr>installed := installed summary + 1\<rparr>, w1)
                        else (summary\<lparr>failed := failed summary + 1\<rparr>, w1)
                    | (Inl x, w1) \<Rightarrow> (summary\<lparr>failed := failed summary + 1\<rparr>, w1))))"

text \<open>The loop over the entries of \<open>selected\<close> and, inside it, over the items of a type.\<close>

fun installItems ::
  "env \<Rightarrow> Mode \<Rightarrow> string \<Rightarrow> bool \<Rightarrow> path \<Rightarrow> TargetConfig \<Rightarrow> (ArtifactType \<times> ExistenceMatrix) list
    \<Rightarrow> ArtifactType \<Rightarrow> item list \<Rightarrow> InstallSummary \<times> world \<Rightarrow> InstallSummary \<times> world" where
  "installItems e mode method force wd targetConfig existenceMaps type [] sw = sw"
| "installItems e mode method force wd targetConfig existenceMaps type (i # items) sw =
     installItems e mode method force wd targetConfig existenceMaps type items
       (installItem e mode method force wd targetConfig existenceMaps type i sw)"

fun installSelected ::
  "env \<Rightarrow> Mode \<Rightarrow> string \<Rightarrow> bool \<Rightarrow> path \<Rightarrow> TargetConfig \<Rightarrow> (ArtifactType \<times> ExistenceMatrix) list
    \<Rightarrow> (ArtifactType \<times> item list) list \<Rightarrow> InstallSummary \<times> world \<Rightarrow> InstallSummary \<times> world" where
  "installSelected e mode method force wd targetConfig existenceMaps [] sw = sw"
| "installSelected e mode method force wd targetConfig existenceMaps ((type, items) # rest) sw =
     installSelected e mode method force wd targetConfig existenceMaps rest
       (installItems e mode method force wd targetConfig existenceMaps type items sw)"

text \<open>The loop over the targets: a fresh summary for each, appended to \<open>summaries\<close>.\<close>

fun installToTargets ::
  "env \<Rightarrow> Mode \<Rightarrow> string \<Rightarrow> bool \<Rightarrow> path \<Rightarrow> (ArtifactType \<times> ExistenceMatrix) list
    \<Rightarrow> (ArtifactType \<times> item list) list \<Rightarrow> (string \<times> TargetConfig) list
    \<Rightarrow> InstallSummary list \<Rightarrow> world \<Rightarrow> InstallSummary list \<times> world" where
  "installToTargets e mode method force wd existenceMaps selected [] summaries w = (summaries, w)"
| "installToTargets e mode method force wd existenceMaps selected ((targetKey, targetConfig) # rest)
       summaries w =
     (let summary = \<lparr>sm_target = targetKey,
                     sm_targetName = (case TARGETS targetKey of
                                        None \<Rightarrow> targetKey
                                      | Some c \<Rightarrow> if tc_name c = [] then targetKey else tc_name c),
                     installed = 0, skipped = 0, failed = 0\<rparr>
      in case installSelected e mode method force wd targetConfig existenceMaps selected (summary, w) of
           (summary', w1) \<Rightarrow>
             installToTargets e mode method force wd existenceMaps selected rest
               (summaries @ [summary']) w1)"

text \<open>
  Step 5 of the command: for every type that has items, in the order of \<open>types\<close>, the
  selection is run against the directories of all targets.
\<close>

fun selectForTypes ::
  "env \<Rightarrow> Mode \<Rightarrow> bool option \<Rightarrow> path \<Rightarrow> (string \<times> TargetConfig) list \<Rightarrow> (ArtifactType \<times> item list) list
    \<Rightarrow> ArtifactType list
    \<Rightarrow> (ArtifactType \<times> item list) list \<times> (ArtifactType \<times> ExistenceMatrix) list \<Rightarrow> world
    \<Rightarrow> (exn + (ArtifactType \<times> item list) list \<times> (ArtifactType \<times> ExistenceMatrix) list) \<times> world" where
  "selectForTypes e mode selAll wd targetConfigs available [] acc w = (Inr acc, w)"
| "selectForTypes e mode selAll wd targetConfigs available (type # types) acc w =
     (case map_of available type of
        None \<Rightarrow> selectForTypes e mode selAll wd targetConfigs available types acc w
      | Some items \<Rightarrow>
          if items = [] then selectForTypes e mode selAll wd targetConfigs available types acc w
          else
            (let targetDirs = map (\<lambda>tc. path_join wd (typeDir (snd tc) type)) targetConfigs
             in case selectItemsWithExistenceCheck e items type
                       \<lparr>sio_mode = mode, sio_targetDirs = targetDirs, sio_selectAll = selAll\<rparr> w of
                  (Inl x, w1) \<Rightarrow> (Inl x, w1)
                | (Inr result, w1) \<Rightarrow>
                    selectForTypes e mode selAll wd targetConfigs available types
                      (assign type (fst result) (fst acc), assign type (snd result) (snd acc)) w1))"

text \<open>JavaScript's truthiness and string conversion of a JSON value of the configuration.\<close>

fun jsTruthy :: "json option \<Rightarrow> bool" where
  "jsTruthy None = False"
| "jsTruthy (Some (JString s)) = (s \<noteq> [])"
| "jsTruthy (Some (JNumber printed)) = (printed \<noteq> ''0'')"
| "jsTruthy (Some (JBool b)) = b"
| "jsTruthy (Some JNull) = False"

fun jsToString :: "json \<Rightarrow> string" where
  "jsToString (JString s) = s"
| "jsToString (JNumber printed) = printed"
| "jsToString (JBool b) = (if b then ''true'' else ''false'')"
| "jsToString JNull = ''null''"

text \<open>A thrown error caught by the outer \<^verbatim>\<open>try\<close> ends the process with code 1.\<close>

definition exitOnError :: "(exn + 'a) \<times> world \<Rightarrow> (exn + 'a) \<times> world" where
  "exitOnError rw =
     (case rw of
        (Inl (Error msg), w) \<Rightarrow> (Inl (ProcessExit 1), w)
      | other \<Rightarrow> other)"

text \<open>
  The command returns nothing; the model returns the list of summaries that the final
  box shows, or \<open>None\<close> when the command ends before installing (nothing selected, or not
  confirmed). What the scanners find is read from the environment.
\<close>

definition resolveSource :: "env \<Rightarrow> string option \<Rightarrow> world \<Rightarrow> (exn + path) \<times> world" where
  "resolveSource e source w =
     (if truthyStr source then fetchRepo e (the source) w else (Inr (cwd e), w))"

definition determineTargets ::
  "env \<Rightarrow> InstallOptions \<Rightarrow> Config \<Rightarrow> world \<Rightarrow> (exn + string list) \<times> world" where
  "determineTargets e options config w =
     (if truthyStr (io_target options) then (Inr [the (io_target options)], w)
      else if jsTruthy (config ''defaultTarget'')
      then (Inr [jsToString (the (config ''defaultTarget''))], w)
      else selectTargets e w)"

definition determineTypes :: "env \<Rightarrow> InstallOptions \<Rightarrow> world \<Rightarrow> (exn + ArtifactType list) \<times> world" where
  "determineTypes e options w =
     (if io_skills options \<or> io_rules options \<or> io_commands options \<or> io_agents options
      then (Inr ((if io_skills options then [Skills] else [])
                 @ (if io_rules options then [Rules] else [])
                 @ (if io_commands options then [Commands] else [])
                 @ (if io_agents options then [Agents] else [])), w)
      else selectArtifactTypes e w)"

definition scanAvailable :: "env \<Rightarrow> path \<Rightarrow> ArtifactType list \<Rightarrow> (ArtifactType \<times> item list) list" where
  "scanAvailable e repoPath types =
     foldl (\<lambda>available type. assign type (scanResult e type repoPath) available) [] types"

definition determineMethod :: "InstallOptions \<Rightarrow> Config \<Rightarrow> string" where
  "determineMethod options config =
     (if truthyStr (io_method options) then the (io_method options)
      else if jsTruthy (config ''linkMethod'') then jsToString (the (config ''linkMethod''))
      else ''symlink'')"

text \<open>Steps 6 and 7: nothing selected, not confirmed, or the installation to all targets.\<close>

definition confirmAndInstall ::
  "env \<Rightarrow> InstallOptions \<Rightarrow> Config \<Rightarrow> (string \<times> TargetConfig) list
    \<Rightarrow> (ArtifactType \<times> item list) list \<times> (ArtifactType \<times> ExistenceMatrix) list \<Rightarrow> world
    \<Rightarrow> (exn + InstallSummary list option) \<times> world" where
  "confirmAndInstall e options config targetConfigs sel w =
     (let selected = fst sel;
          existenceMaps = snd sel;
          totalSelected = length (concat (map snd selected))
      in if totalSelected = 0 then (Inr None, w)
         else
           andThen (confirmAction e)
             (\<lambda>proceed w1.
                if \<not> proceed then (Inr None, w1)
                else
                  (let method = determineMethod options config;
                       force = (io_mode options = Update)
                   in case installToTargets e (io_mode options) method force (cwd e) existenceMaps
                             selected targetConfigs [] w1 of
                        (summaries, w2) \<Rightarrow> (Inr (Some summaries), w2))) w)"

definition installCommand ::
  "env \<Rightarrow> string option \<Rightarrow> InstallOptions \<Rightarrow> world \<Rightarrow> (exn + InstallSummary list option) \<times> world" where
  "installCommand e source options w0 =
     (case getConfig e w0 of
        (config, w1) \<Rightarrow>
          exitOnError
            (andThen (resolveSource e source)
               (\<lambda>repoPath.
                  andThen (determineTargets e options config)
                    (\<lambda>targetKeys.
                       andThen (determineTypes e options)
                         (\<lambda>types.
                            andThen
                              (selectForTypes e (io_mode options) (io_all options) (cwd e)
                                 (map (\<lambda>key. (key, getTargetConfig key)) targetKeys)
                                 (scanAvailable e repoPath types) types ([], []))
                              (confirmAndInstall e options config
                                 (map (\<lambda>key. (key, getTargetConfig key)) targetKeys)))))
               w1))"

section \<open>Fixtures: concrete environments and worlds\<close>

text \<open>A POSIX machine on which no library call fails and nobody answers a prompt.\<close>

definition quietEnv :: env where
  "quietEnv =
     \<lparr>platform = ''linux'', cwd = ''/proj'', homedir = ''/home/u'', tmpdir = ''/tmp'',
      now = (\<lambda>_. 0), faults = (\<lambda>_ _. None), fetchAnswer = (\<lambda>_ _. NetworkError ''fetch failed''),
      scanResult = (\<lambda>_ _. []), chosenTargets = Cancelled, addCustom = Cancelled,
      customPath = Cancelled, chosenTypes = Cancelled, chosenItems = (\<lambda>_. Cancelled),
      confirmed = Cancelled\<rparr>"

text \<open>The same machine on a file system that refuses symbolic links.\<close>

definition noSymlinkEnv :: env where
  "noSymlinkEnv =
     quietEnv\<lparr>faults := (\<lambda>_ c. case c of Symlink _ _ \<Rightarrow> Some ''EPERM: operation not permitted''
                                  | _ \<Rightarrow> None)\<rparr>"

definition sourceOnly :: world where
  "sourceOnly = \<lparr>files = [''/source'' \<mapsto> Directory], calls = []\<rparr>"

text \<open>A world with the root directory alone, so that \<^verbatim>\<open>/missing\<close> is missing.\<close>

definition rootOnly :: world where
  "rootOnly = \<lparr>files = [''/'' \<mapsto> Directory], calls = []\<rparr>"

definition noForce :: LinkOptions where
  "noForce = \<lparr>lo_method = None, lo_force = Some False\<rparr>"

text \<open>
  Scenario D of the specification: one skill \<open>foo\<close>, scanned from \<^verbatim>\<open>/repo\<close>, the two
  targets \<^verbatim>\<open>.claude\<close> and \<^verbatim>\<open>.cursor\<close> picked at the prompt, the skill already present
  in the first one only.
\<close>

definition fooItem :: item where
  "fooItem = \<lparr>item_id = ''foo'', item_description = ''desc'',
              item_path = ''/repo/skills/foo/SKILL.md''\<rparr>"

definition barItem :: item where
  "barItem = \<lparr>item_id = ''bar'', item_description = [],
              item_path = ''/repo/skills/bar/SKILL.md''\<rparr>"

definition twoTargetEnv :: env where
  "twoTargetEnv =
     quietEnv\<lparr>scanResult := (\<lambda>type p. if type = Skills then [fooItem] else []),
              chosenTargets := Answered [''.claude'', ''.cursor''],
              addCustom := Answered False,
              chosenItems := (\<lambda>type. Answered [''foo'']),
              confirmed := Answered True\<rparr>"

definition halfInstalled :: world where
  "halfInstalled =
     \<lparr>files = [''/repo/skills/foo'' \<mapsto> Directory, ''/proj/.claude/skills/foo'' \<mapsto> Directory],
      calls = []\<rparr>"

text \<open>
  The same project when what is in the first target is a symbolic link whose target has
  been deleted.
\<close>

definition danglingInstalled :: world where
  "danglingInstalled =
     \<lparr>files = [''/repo/skills/foo'' \<mapsto> Directory,
               ''/proj/.claude/skills/foo'' \<mapsto> SymlinkTo ''/gone/skills/foo''],
      calls = []\<rparr>"

definition probeClaude :: SelectItemsOptions where
  "probeClaude =
     \<lparr>sio_mode = Update, sio_targetDirs = [''/proj/.claude/skills''], sio_selectAll = Some True\<rparr>"

definition installSkills :: InstallOptions where
  "installSkills =
     \<lparr>io_mode = Install, io_skills = True, io_rules = False, io_commands = False,
      io_agents = False, io_all = None, io_target = None, io_method = Some ''copy''\<rparr>"


text \<open>A network on which every request is answered with a non-success status.\<close>

definition notFoundEnv :: env where
  "notFoundEnv = quietEnv\<lparr>fetchAnswer := (\<lambda>_ _. Response False [])\<rparr>"

text \<open>A world in which a default target has been configured.\<close>

definition configured :: world where
  "configured =
     \<lparr>files = [''/home/u/.config'' \<mapsto> Directory,
               ''/home/u/.config/agent-share'' \<mapsto> Directory,
               ''/home/u/.config/agent-share/config.json''
                  \<mapsto> JsonFile [''defaultTarget'' \<mapsto> JString ''.cursor'']],
      calls = []\<rparr>"


section \<open>Properties of linkOrCopy\<close>

lemma nodeAt_None: "fs p = None \<Longrightarrow> nodeAt hops fs p = None"
  by (cases hops) simp_all

lemma nodeAt_plain:
  "fs p = Some n \<Longrightarrow> \<forall>s. n \<noteq> SymlinkTo s \<Longrightarrow> 0 < hops \<Longrightarrow> nodeAt hops fs p = Some n"
  by (cases hops; cases n) simp_all

lemma stat_None: "fs p = None \<Longrightarrow> stat fs p = None"
  by (simp add: stat_def nodeAt_None)

lemma stat_plain: "fs p = Some n \<Longrightarrow> \<forall>s. n \<noteq> SymlinkTo s \<Longrightarrow> stat fs p = Some n"
  by (simp add: stat_def nodeAt_plain)

lemma stat_link: "fs p = Some (SymlinkTo s) \<Longrightarrow> stat fs p = nodeAt 40 fs (linkTarget p s)"
proof -
  assume link: "fs p = Some (SymlinkTo s)"
  have hops: "(41::nat) = Suc 40" by simp
  show ?thesis
    unfolding stat_def hops nodeAt.simps link by simp
qed

lemma stat_Directory: "fs p = Some Directory \<Longrightarrow> stat fs p = Some Directory"
  by (simp add: stat_plain)

lemma mkdirs_keeps: "fs q \<noteq> None \<Longrightarrow> mkdirs d fs q = fs q"
  by (simp add: mkdirs_def)

lemmas eval_defs = linkOrCopy_def andThen_def pathExists_def perform_def refused_def quietEnv_def
  sourceOnly_def Let_def mkdirs_def path_dirname_def noSymlinkEnv_def copyFallback_def callsSince_def
  isDirectory_def stat_None stat_plain

lemma perform_cases:
  "perform e c w = (r, w') \<Longrightarrow>
     (\<exists>m. r = Inl (Error m) \<and> w' = w\<lparr>calls := calls w @ [(c, Threw m)]\<rparr>) \<or>
     (r = Inr () \<and> w' = \<lparr>files = effect c (files w), calls = calls w @ [(c, Ok)]\<rparr>
        \<and> refused c (files w) = None \<and> faults e w c = None)"
  by (auto simp: perform_def split: option.splits)

lemma linkOrCopy_exists_noforce:
  assumes "stat (files w) target \<noteq> None" "lo_force opts = None \<or> lo_force opts = Some False"
  shows "linkOrCopy e source target opts w =
           (Inr \<lparr>lr_method = (case lo_method opts of None \<Rightarrow> ''symlink'' | Some m \<Rightarrow> m),
                 lr_source = source, lr_target = target, lr_success = False,
                 lr_error = Some ''Target already exists''\<rparr>,
            w\<lparr>calls := calls w @ [(PathExists target, Ok)]\<rparr>)"
  using assms
  by (auto simp: linkOrCopy_def andThen_def pathExists_def Let_def split: option.splits)

text \<open>
  What a call without \<open>force\<close> that returns leaves at a target that was not there: a
  link to the source, or what the copy put there.
\<close>

lemma linkOrCopy_fresh_result:
  assumes "files w target = None" "lo_force opts = None \<or> lo_force opts = Some False"
    "files w source = Some n"
    "linkOrCopy e source target opts w = (Inr r, w1)"
  shows "lr_success r \<and>
         ((files w1 target = Some (SymlinkTo source) \<and> files w1 source = Some n) \<or>
          files w1 target = Some n)"
  using assms
  by (auto simp: linkOrCopy_def andThen_def pathExists_def copyFallback_def Let_def copyTree_def
        stat_None mkdirs_keeps
      split: option.splits prod.splits sum.splits if_splits dest!: perform_cases)

text \<open>
  C2, as the code has it. Let the source be an entry that is there, is not a symbolic link
  and is named by an absolute path, and let there be no entry at the target. Then a call
  without \<open>force\<close> that returns (does not throw) returns a success result, and the next
  call without \<open>force\<close> on the same source and target, whatever the environment does
  then, returns (does not throw) the failure result with error
  \<^verbatim>\<open>Target already exists\<close>, leaves the file system as it was and makes no library call
  except the one existence probe: no removal, no directory creation, no symlink, no copy.
\<close>

theorem linkOrCopy_twice_without_force:
  assumes src: "files w source = Some n" "\<forall>s. n \<noteq> SymlinkTo s"
    and absolute: "source \<noteq> [] \<and> hd source = CHR ''/''"
    and fresh: "files w target = None"
    and noforce: "lo_force opts = None \<or> lo_force opts = Some False"
    and first: "linkOrCopy e source target opts w = (Inr r1, w1)"
  shows "lr_success r1 \<and>
         linkOrCopy e2 source target opts w1 =
           (Inr \<lparr>lr_method = (case lo_method opts of None \<Rightarrow> ''symlink'' | Some m \<Rightarrow> m),
                 lr_source = source, lr_target = target, lr_success = False,
                 lr_error = Some ''Target already exists''\<rparr>,
            w1\<lparr>calls := calls w1 @ [(PathExists target, Ok)]\<rparr>)"
proof -
  from linkOrCopy_fresh_result [OF fresh noforce src(1) first]
  have ok: "lr_success r1"
    and left: "(files w1 target = Some (SymlinkTo source) \<and> files w1 source = Some n) \<or>
               files w1 target = Some n"
    by simp_all
  from left have there: "stat (files w1) target \<noteq> None"
  proof
    assume link: "files w1 target = Some (SymlinkTo source) \<and> files w1 source = Some n"
    then have "stat (files w1) target = nodeAt 40 (files w1) (linkTarget target source)"
      by (simp add: stat_link)
    also have "linkTarget target source = source"
      using absolute by (simp add: linkTarget_def)
    also have "nodeAt 40 (files w1) source = Some n"
      using link src(2) by (simp add: nodeAt_plain)
    finally show ?thesis by simp
  next
    assume "files w1 target = Some n"
    with src(2) show ?thesis by (simp add: stat_plain)
  qed
  from linkOrCopy_exists_noforce [OF there noforce] ok show ?thesis by simp
qed

theorem linkOrCopy_twice_witness:
  "files sourceOnly ''/source'' = Some Directory \<and> files sourceOnly ''/target'' = None \<and>
   (case linkOrCopy quietEnv ''/source'' ''/target'' noForce sourceOnly of
      (Inl x, w1) \<Rightarrow> False
    | (Inr r1, w1) \<Rightarrow>
        lr_success r1 \<and> lr_method r1 = ''symlink'' \<and>
        linkOrCopy noSymlinkEnv ''/source'' ''/target'' noForce w1 =
          (Inr \<lparr>lr_method = ''symlink'', lr_source = ''/source'', lr_target = ''/target'',
                lr_success = False, lr_error = Some ''Target already exists''\<rparr>,
           w1\<lparr>calls := calls w1 @ [(PathExists ''/target'', Ok)]\<rparr>))"
proof -
  obtain res w1 where run: "linkOrCopy quietEnv ''/source'' ''/target'' noForce sourceOnly = (res, w1)"
    by (cases "linkOrCopy quietEnv ''/source'' ''/target'' noForce sourceOnly") simp
  have src: "files sourceOnly ''/source'' = Some Directory" "\<forall>s. Directory \<noteq> SymlinkTo s"
    and absolute: "''/source'' \<noteq> [] \<and> hd ''/source'' = CHR ''/''"
    and fresh: "files sourceOnly ''/target'' = None"
    by (simp_all add: sourceOnly_def)
  have res: "res = Inr \<lparr>lr_method = ''symlink'', lr_source = ''/source'', lr_target = ''/target'',
                        lr_success = True, lr_error = None\<rparr>"
    using run
    by (simp add: eval_defs noForce_def)
  have noforce: "lo_force noForce = None \<or> lo_force noForce = Some False"
    by (simp add: noForce_def)
  from linkOrCopy_twice_without_force [OF src absolute fresh noforce run [unfolded res], of noSymlinkEnv]
  show ?thesis using src(1) fresh run res by (simp add: noForce_def)
qed

text \<open>
  C2, as the claim has it, fails for a source that is missing: the first call makes a
  symbolic link that leads nowhere and returns success; for the second call the probe
  of the target answers \<open>false\<close>, the symlink call throws (the link is there), the copy
  throws (the source is not), and so does \<open>linkOrCopy\<close>.
\<close>

theorem linkOrCopy_twice_counterexample:
  "fst (linkOrCopy quietEnv ''/missing'' ''/target'' noForce rootOnly)
     = Inr \<lparr>lr_method = ''symlink'', lr_source = ''/missing'', lr_target = ''/target'',
            lr_success = True, lr_error = None\<rparr>
   \<and> isl (fst (linkOrCopy quietEnv ''/missing'' ''/target'' noForce
                 (snd (linkOrCopy quietEnv ''/missing'' ''/target'' noForce rootOnly))))
   \<and> map fst (callsSince (snd (linkOrCopy quietEnv ''/missing'' ''/target'' noForce rootOnly))
                (snd (linkOrCopy quietEnv ''/missing'' ''/target'' noForce
                        (snd (linkOrCopy quietEnv ''/missing'' ''/target'' noForce rootOnly)))))
     = [PathExists ''/target'', EnsureDir ''/'', Symlink ''/missing'' ''/target'',
        Copy ''/missing'' ''/target'']"
proof -
  have first: "linkOrCopy quietEnv ''/missing'' ''/target'' noForce rootOnly
     = (Inr \<lparr>lr_method = ''symlink'', lr_source = ''/missing'', lr_target = ''/target'',
              lr_success = True, lr_error = None\<rparr>,
        \<lparr>files = [''/'' \<mapsto> Directory, ''/target'' \<mapsto> SymlinkTo ''/missing''],
          calls = [(PathExists ''/target'', Ok), (EnsureDir ''/'', Ok),
                   (Symlink ''/missing'' ''/target'', Ok)]\<rparr>)"
    by (simp add: eval_defs noForce_def rootOnly_def fun_eq_iff)
  have dangling: "stat [''/'' \<mapsto> Directory, ''/target'' \<mapsto> SymlinkTo ''/missing''] ''/target'' = None"
    by (simp add: stat_link linkTarget_def nodeAt_None)
  show ?thesis
    unfolding first
    by (simp add: linkOrCopy_def andThen_def pathExists_def perform_def refused_def quietEnv_def
          Let_def mkdirs_def path_dirname_def copyFallback_def callsSince_def noForce_def dangling
          isDirectory_def stat_plain)
qed

lemma linkOrCopy_success_method:
  assumes "linkOrCopy e source target opts w = (Inr r, w')" "lr_success r"
  shows "(lr_method r = ''symlink'' \<and> last (calls w') = (Symlink source target, Ok)) \<or>
         (lr_method r = ''copy'' \<and> last (calls w') = (Copy source target, Ok))"
  using assms
  by (auto simp: linkOrCopy_def andThen_def pathExists_def copyFallback_def Let_def
      split: option.splits prod.splits sum.splits if_splits bool.splits dest!: perform_cases)

lemma linkOrCopy_win32:
  assumes "linkOrCopy e source target opts w = (res, w')" "platform e = ''win32''"
  shows "(\<forall>s t oc. (Symlink s t, oc) \<notin> set (callsSince w w')) \<and>
         (\<forall>r. res = Inr r \<and> lr_success r \<longrightarrow> lr_method r = ''copy'')"
  using assms
  by (auto simp: linkOrCopy_def andThen_def pathExists_def copyFallback_def Let_def callsSince_def
      split: option.splits prod.splits sum.splits if_splits bool.splits dest!: perform_cases)

lemma linkOrCopy_fallback:
  assumes "linkOrCopy e source target opts w = (res, w')"
    "(Symlink source target, Threw m) \<in> set (callsSince w w')"
  shows "(\<exists>oc. last (calls w') = (Copy source target, oc)) \<and>
         ((\<forall>m'. (Copy source target, Threw m') \<notin> set (callsSince w w')) \<longrightarrow>
            res = Inr \<lparr>lr_method = ''copy'', lr_source = source, lr_target = target,
                       lr_success = True, lr_error = None\<rparr>
            \<and> last (calls w') = (Copy source target, Ok))"
  using assms
  by (auto simp: linkOrCopy_def andThen_def pathExists_def copyFallback_def Let_def callsSince_def
      split: option.splits prod.splits sum.splits if_splits bool.splits dest!: perform_cases)

text \<open>
  C3. A success result records the method that was used: \<^verbatim>\<open>symlink\<close> exactly when the
  last library call is the symlink call and it succeeded, \<^verbatim>\<open>copy\<close> when it is the copy.
  On \<^verbatim>\<open>win32\<close> no symlink call is made at all and every success result records
  \<^verbatim>\<open>copy\<close>. Wherever the symlink call throws, with whatever error, the copy is called
  next, and unless the copy throws as well the call returns the success result that
  records \<^verbatim>\<open>copy\<close>.
\<close>

theorem linkOrCopy_records_method_used:
  assumes run: "linkOrCopy e source target opts w = (res, w')"
  shows "(\<forall>r. res = Inr r \<and> lr_success r \<longrightarrow>
            (lr_method r = ''symlink'' \<and> last (calls w') = (Symlink source target, Ok)) \<or>
            (lr_method r = ''copy'' \<and> last (calls w') = (Copy source target, Ok)))
       \<and> (platform e = ''win32'' \<longrightarrow>
            (\<forall>s t oc. (Symlink s t, oc) \<notin> set (callsSince w w')) \<and>
            (\<forall>r. res = Inr r \<and> lr_success r \<longrightarrow> lr_method r = ''copy''))
       \<and> (\<forall>m. (Symlink source target, Threw m) \<in> set (callsSince w w') \<longrightarrow>
            (\<exists>oc. last (calls w') = (Copy source target, oc)) \<and>
            ((\<forall>m'. (Copy source target, Threw m') \<notin> set (callsSince w w')) \<longrightarrow>
               res = Inr \<lparr>lr_method = ''copy'', lr_source = source, lr_target = target,
                          lr_success = True, lr_error = None\<rparr>
               \<and> last (calls w') = (Copy source target, Ok)))"
proof (intro conjI allI impI)
  fix r assume "res = Inr r \<and> lr_success r"
  with run linkOrCopy_success_method [of e source target opts w r w']
  show "(lr_method r = ''symlink'' \<and> last (calls w') = (Symlink source target, Ok)) \<or>
        (lr_method r = ''copy'' \<and> last (calls w') = (Copy source target, Ok))"
    by simp
next
  fix s t oc assume "platform e = ''win32''"
  with linkOrCopy_win32 [OF run] show "(Symlink s t, oc) \<notin> set (callsSince w w')" by simp
next
  fix r assume "platform e = ''win32''" "res = Inr r \<and> lr_success r"
  with linkOrCopy_win32 [OF run] show "lr_method r = ''copy''" by simp
next
  fix m assume "(Symlink source target, Threw m) \<in> set (callsSince w w')"
  from linkOrCopy_fallback [OF run this]
  show "\<exists>oc. last (calls w') = (Copy source target, oc)" by simp
next
  fix m assume a: "(Symlink source target, Threw m) \<in> set (callsSince w w')"
    and b: "\<forall>m'. (Copy source target, Threw m') \<notin> set (callsSince w w')"
  from linkOrCopy_fallback [OF run a] b
  show "res = Inr \<lparr>lr_method = ''copy'', lr_source = source, lr_target = target,
                    lr_success = True, lr_error = None\<rparr>" by simp
next
  fix m assume a: "(Symlink source target, Threw m) \<in> set (callsSince w w')"
    and b: "\<forall>m'. (Copy source target, Threw m') \<notin> set (callsSince w w')"
  from linkOrCopy_fallback [OF run a] b
  show "last (calls w') = (Copy source target, Ok)" by simp
qed

theorem linkOrCopy_records_method_used_witness:
  "(case linkOrCopy (quietEnv\<lparr>platform := ''win32''\<rparr>) ''/source'' ''/target''
           \<lparr>lo_method = Some ''symlink'', lo_force = None\<rparr> sourceOnly of
      (Inl x, w') \<Rightarrow> False
    | (Inr r, w') \<Rightarrow>
        lr_success r \<and> lr_method r = ''copy'' \<and>
        callsSince sourceOnly w' =
          [(PathExists ''/target'', Ok), (EnsureDir ''/'', Ok), (Copy ''/source'' ''/target'', Ok)])
   \<and>
   (case linkOrCopy noSymlinkEnv ''/source'' ''/target''
           \<lparr>lo_method = Some ''symlink'', lo_force = None\<rparr> sourceOnly of
      (Inl x, w') \<Rightarrow> False
    | (Inr r, w') \<Rightarrow>
        lr_success r \<and> lr_method r = ''copy'' \<and>
        callsSince sourceOnly w' =
          [(PathExists ''/target'', Ok), (EnsureDir ''/'', Ok),
           (Symlink ''/source'' ''/target'', Threw ''EPERM: operation not permitted''),
           (Copy ''/source'' ''/target'', Ok)])"
proof -
  let ?opts = "\<lparr>lo_method = Some ''symlink'', lo_force = None\<rparr>"
  let ?win = "quietEnv\<lparr>platform := ''win32''\<rparr>"
  obtain r1 w1 where run1: "linkOrCopy ?win ''/source'' ''/target'' ?opts sourceOnly = (r1, w1)"
    by (cases "linkOrCopy ?win ''/source'' ''/target'' ?opts sourceOnly") simp
  obtain r2 w2 where run2: "linkOrCopy noSymlinkEnv ''/source'' ''/target'' ?opts sourceOnly = (r2, w2)"
    by (cases "linkOrCopy noSymlinkEnv ''/source'' ''/target'' ?opts sourceOnly") simp
  have c1: "callsSince sourceOnly w1 =
          [(PathExists ''/target'', Ok), (EnsureDir ''/'', Ok), (Copy ''/source'' ''/target'', Ok)]"
    and ok1: "\<exists>r. r1 = Inr r \<and> lr_success r"
    using run1 by (auto simp add: eval_defs)
  have c2: "callsSince sourceOnly w2 =
          [(PathExists ''/target'', Ok), (EnsureDir ''/'', Ok),
           (Symlink ''/source'' ''/target'', Threw ''EPERM: operation not permitted''),
           (Copy ''/source'' ''/target'', Ok)]"
    using run2 by (auto simp add: eval_defs)
  have win: "platform ?win = ''win32''" by (simp add: quietEnv_def)
  from linkOrCopy_records_method_used [OF run1] win ok1
  have m1: "\<exists>r. r1 = Inr r \<and> lr_success r \<and> lr_method r = ''copy''" by auto
  from linkOrCopy_records_method_used [OF run2] c2
  have m2: "r2 = Inr \<lparr>lr_method = ''copy'', lr_source = ''/source'', lr_target = ''/target'',
                          lr_success = True, lr_error = None\<rparr>" by simp
  show ?thesis using run1 run2 c1 c2 m1 m2 by auto
qed

section \<open>Properties of the installation loop\<close>

lemma installItem_skips:
  assumes "map_of existenceMaps type = Some matrix" "map_of matrix (item_id i) = Some existsMap"
    "map_of existsMap (path_join wd (typeDir tc type)) = Some True"
  shows "installItem e Install method force wd tc existenceMaps type i (s, w)
           = (s\<lparr>skipped := skipped s + 1\<rparr>, w)"
  using assms by (simp add: installItem_def)

text \<open>
  A call without \<open>force\<close> on a target for which the probe answers \<open>false\<close>, during which no
  library call throws, returns a success result.
\<close>

lemma linkOrCopy_quiet_success:
  assumes run: "linkOrCopy e source target \<lparr>lo_method = Some method, lo_force = Some False\<rparr> w = (res, w')"
    and absent: "\<not> fst (pathExists target w)"
    and quiet: "\<forall>c m. (c, Threw m) \<notin> set (callsSince w w')"
  shows "\<exists>r. res = Inr r \<and> lr_success r"
  using assms
  apply (auto simp: linkOrCopy_def andThen_def pathExists_def copyFallback_def callsSince_def
      split: prod.splits sum.splits if_splits dest!: perform_cases)
  apply blast+
  done

lemma scenario_D:
  assumes pre1: "fst (pathExists (path_join (path_join wd (typeDir c1 type)) (item_id i)) w)"
    and pre2: "\<not> fst (pathExists (path_join (path_join wd (typeDir c2 type)) (item_id i)) w)"
    and picks: "chosenItems e type = Answered ids" "item_id i \<in> set ids"
  shows "\<exists>matrix w1.
           selectItemsWithExistenceCheck e [i] type
               \<lparr>sio_mode = Install,
                sio_targetDirs = [path_join wd (typeDir c1 type), path_join wd (typeDir c2 type)],
                sio_selectAll = None\<rparr> w = (Inr ([i], matrix), w1)
         \<and> (\<forall>summaries w2.
               installToTargets e Install method False wd [(type, matrix)] [(type, [i])]
                 [(k1, c1), (k2, c2)] [] w1 = (summaries, w2)
               \<and> (\<forall>c m. (c, Threw m) \<notin> set (callsSince w1 w2)) \<longrightarrow>
               (\<exists>s1 s2. summaries = [s1, s2]
                  \<and> sm_target s1 = k1 \<and> skipped s1 = 1 \<and> installed s1 = 0 \<and> failed s1 = 0
                  \<and> sm_target s2 = k2 \<and> skipped s2 = 0 \<and> installed s2 = 1 \<and> failed s2 = 0))"
proof -
  let ?d1 = "path_join wd (typeDir c1 type)" and ?d2 = "path_join wd (typeDir c2 type)"
  have neq: "?d1 \<noteq> ?d2" using pre1 pre2 by auto
  let ?em = "[(?d1, True), (?d2, False)]"
  let ?matrix = "[(item_id i, ?em)]"
  let ?w1 = "w\<lparr>calls := calls w @ [(PathExists (path_join ?d1 (item_id i)), Ok),
                                     (PathExists (path_join ?d2 (item_id i)), Ok)]\<rparr>"
  have probe: "probeItems [i] [?d1, ?d2] [] w = (?matrix, ?w1)"
    using pre1 pre2 neq by (auto simp: pathExists_def)
  have sel: "selectItemsWithExistenceCheck e [i] type
               \<lparr>sio_mode = Install, sio_targetDirs = [?d1, ?d2], sio_selectAll = None\<rparr> w
             = (Inr ([i], ?matrix), ?w1)"
    using probe picks by (simp add: selectItemsWithExistenceCheck_def)
  let ?s0 = "\<lambda>k. \<lparr>sm_target = k,
               sm_targetName = (case TARGETS k of None \<Rightarrow> k
                                | Some c \<Rightarrow> if tc_name c = [] then k else tc_name c),
               installed = 0, skipped = 0, failed = 0\<rparr>"
  have t1: "installItem e Install method False wd c1 [(type, ?matrix)] type i (?s0 k1, ?w1)
              = ((?s0 k1)\<lparr>skipped := 1\<rparr>, ?w1)"
    by (simp add: installItem_def)
  have absent: "\<not> fst (pathExists (path_join ?d2 (item_id i)) ?w1)"
    using pre2 by (simp add: pathExists_def)
  have "\<exists>s1 s2. summaries = [s1, s2]
          \<and> sm_target s1 = k1 \<and> skipped s1 = 1 \<and> installed s1 = 0 \<and> failed s1 = 0
          \<and> sm_target s2 = k2 \<and> skipped s2 = 0 \<and> installed s2 = 1 \<and> failed s2 = 0"
    if run: "installToTargets e Install method False wd [(type, ?matrix)] [(type, [i])]
                 [(k1, c1), (k2, c2)] [] ?w1 = (summaries, w2)"
      and quiet: "\<forall>c m. (c, Threw m) \<notin> set (callsSince ?w1 w2)"
    for summaries w2
  proof -
    obtain res w3 where lc: "linkOrCopy e (path_dirname (item_path i)) (path_join ?d2 (item_id i))
         \<lparr>lo_method = Some method, lo_force = Some False\<rparr> ?w1 = (res, w3)"
      by (cases "linkOrCopy e (path_dirname (item_path i)) (path_join ?d2 (item_id i))
         \<lparr>lo_method = Some method, lo_force = Some False\<rparr> ?w1") simp
    obtain s2 where t2: "installItem e Install method False wd c2 [(type, ?matrix)] type i (?s0 k2, ?w1)
              = (s2, w3)"
      and s2: "s2 = (case res of
                       Inr result \<Rightarrow> if lr_success result then (?s0 k2)\<lparr>installed := 1\<rparr>
                                      else (?s0 k2)\<lparr>failed := 1\<rparr>
                     | Inl x \<Rightarrow> (?s0 k2)\<lparr>failed := 1\<rparr>)"
      using lc neq by (auto simp: installItem_def split: sum.splits)
    from run t1 t2 have out: "summaries = [(?s0 k1)\<lparr>skipped := 1\<rparr>, s2]" "w2 = w3"
      by (simp_all add: Let_def)
    from linkOrCopy_quiet_success [OF lc absent] quiet out(2)
    obtain r where "res = Inr r" "lr_success r" by blast
    with s2 have "s2 = (?s0 k2)\<lparr>installed := 1\<rparr>" by simp
    with out(1) show ?thesis by simp
  qed
  with sel show ?thesis by blast
qed

text \<open>
  C1. In install mode, when the existence matrix has \<open>true\<close> for an item in the directory
  of a target, the step for that pair adds one to that target's skipped counter and
  returns the world as it was: no call of \<open>linkOrCopy\<close>, no library call at all. In
  particular: one item that the user picks and two targets, where the probe
  \<^verbatim>\<open>fs.pathExists\<close> answers \<open>true\<close> for the item in the first target's directory and
  \<open>false\<close> in the second's. Then the selection returns the item with its matrix, and an
  installation during which no library call throws gives the two summaries in the order
  of the targets, the first with skipped 1 (installed 0, failed 0), the second with
  installed 1 (skipped 0, failed 0).
\<close>

theorem install_skips_pairs_that_exist:
  "(map_of existenceMaps type = Some matrix \<and> map_of matrix (item_id i) = Some existsMap \<and>
    map_of existsMap (path_join wd (typeDir tc type)) = Some True \<longrightarrow>
      installItem e Install method force wd tc existenceMaps type i (s, w)
        = (s\<lparr>skipped := skipped s + 1\<rparr>, w))
   \<and>
   (fst (pathExists (path_join (path_join wd (typeDir c1 type)) (item_id i)) w) \<and>
    \<not> fst (pathExists (path_join (path_join wd (typeDir c2 type)) (item_id i)) w) \<and>
    chosenItems e type = Answered ids \<and> item_id i \<in> set ids \<longrightarrow>
      (\<exists>matrix w1.
           selectItemsWithExistenceCheck e [i] type
               \<lparr>sio_mode = Install,
                sio_targetDirs = [path_join wd (typeDir c1 type), path_join wd (typeDir c2 type)],
                sio_selectAll = None\<rparr> w = (Inr ([i], matrix), w1)
         \<and> (\<forall>summaries w2.
               installToTargets e Install method False wd [(type, matrix)] [(type, [i])]
                 [(k1, c1), (k2, c2)] [] w1 = (summaries, w2)
               \<and> (\<forall>c m. (c, Threw m) \<notin> set (callsSince w1 w2)) \<longrightarrow>
               (\<exists>s1 s2. summaries = [s1, s2]
                  \<and> sm_target s1 = k1 \<and> skipped s1 = 1 \<and> installed s1 = 0 \<and> failed s1 = 0
                  \<and> sm_target s2 = k2 \<and> skipped s2 = 0 \<and> installed s2 = 1 \<and> failed s2 = 0))))"
proof (intro conjI impI)
  assume "map_of existenceMaps type = Some matrix \<and> map_of matrix (item_id i) = Some existsMap \<and>
    map_of existsMap (path_join wd (typeDir tc type)) = Some True"
  then show "installItem e Install method force wd tc existenceMaps type i (s, w)
        = (s\<lparr>skipped := skipped s + 1\<rparr>, w)"
    by (simp add: installItem_skips)
next
  assume "fst (pathExists (path_join (path_join wd (typeDir c1 type)) (item_id i)) w) \<and>
    \<not> fst (pathExists (path_join (path_join wd (typeDir c2 type)) (item_id i)) w) \<and>
    chosenItems e type = Answered ids \<and> item_id i \<in> set ids"
  then show "\<exists>matrix w1.
           selectItemsWithExistenceCheck e [i] type
               \<lparr>sio_mode = Install,
                sio_targetDirs = [path_join wd (typeDir c1 type), path_join wd (typeDir c2 type)],
                sio_selectAll = None\<rparr> w = (Inr ([i], matrix), w1)
         \<and> (\<forall>summaries w2.
               installToTargets e Install method False wd [(type, matrix)] [(type, [i])]
                 [(k1, c1), (k2, c2)] [] w1 = (summaries, w2)
               \<and> (\<forall>c m. (c, Threw m) \<notin> set (callsSince w1 w2)) \<longrightarrow>
               (\<exists>s1 s2. summaries = [s1, s2]
                  \<and> sm_target s1 = k1 \<and> skipped s1 = 1 \<and> installed s1 = 0 \<and> failed s1 = 0
                  \<and> sm_target s2 = k2 \<and> skipped s2 = 0 \<and> installed s2 = 1 \<and> failed s2 = 0))"
    using scenario_D [of wd c1 type i w c2 e ids "method" "k1" "k2"] by blast
qed

lemmas path_defs = path_join_def path_joinl_def path_normalize_def path_dirname_def

lemma claudeSkills: "path_join ''/proj'' (tc_skills (getTargetConfig ''.claude'')) = ''/proj/.claude/skills''"
  by (simp add: path_defs getTargetConfig_def TARGETS_def)

lemma cursorSkills: "path_join ''/proj'' (tc_skills (getTargetConfig ''.cursor'')) = ''/proj/.cursor/skills''"
  by (simp add: path_defs getTargetConfig_def TARGETS_def)

lemma fooPaths:
  "path_join ''/proj/.claude/skills'' ''foo'' = ''/proj/.claude/skills/foo''"
  "path_join ''/proj/.cursor/skills'' ''foo'' = ''/proj/.cursor/skills/foo''"
  "path_dirname ''/repo/skills/foo/SKILL.md'' = ''/repo/skills/foo''"
  "path_dirname ''/proj/.cursor/skills/foo'' = ''/proj/.cursor/skills''"
  by (simp_all add: path_defs)

text \<open>On a file system that holds directories only, making a directory is not refused.\<close>

lemma stat_among_directories:
  assumes "\<forall>q n. fs q = Some n \<longrightarrow> n = Directory" "fs q \<noteq> None"
  shows "stat fs q = Some Directory"
proof -
  from assms have "fs q = Some Directory" by auto
  then show ?thesis by (simp add: stat_plain)
qed

lemma ensureDir_among_directories:
  assumes dirs: "\<forall>q n. fs q = Some n \<longrightarrow> n = Directory"
  shows "refused (EnsureDir d) fs = None"
proof -
  have nd: "(fs q \<noteq> None \<and> \<not> isDirectory fs q) = False" for q
  proof (cases "fs q")
    case None
    then show ?thesis by simp
  next
    case (Some n)
    with dirs have "fs q = Some Directory" by auto
    then show ?thesis by (simp add: isDirectory_def stat_plain)
  qed
  show ?thesis unfolding refused_def nd by (simp add: list_ex_iff)
qed

text \<open>The copy of an installed directory into a project that holds directories only.\<close>

lemma linkOrCopy_copy_among_directories:
  assumes dirs: "\<forall>q n. files w q = Some n \<longrightarrow> n = Directory"
    and src: "files w source = Some Directory"
    and fresh: "files w target = None"
    and nofault: "\<forall>w c. faults e w c = None"
  shows "\<exists>fs. linkOrCopy e source target \<lparr>lo_method = Some ''copy'', lo_force = Some False\<rparr> w
           = (Inr \<lparr>lr_method = ''copy'', lr_source = source, lr_target = target,
                   lr_success = True, lr_error = None\<rparr>,
              \<lparr>files = fs,
                calls = calls w @ [(PathExists target, Ok), (EnsureDir (path_dirname target), Ok),
                                   (Copy source target, Ok)]\<rparr>)"
proof -
  have mk: "refused (EnsureDir (path_dirname target)) (files w) = None"
    using dirs by (rule ensureDir_among_directories)
  have after: "mkdirs (path_dirname target) (files w) source = Some Directory"
    "mkdirs (path_dirname target) (files w) target = None
       \<or> mkdirs (path_dirname target) (files w) target = Some Directory"
    using src fresh by (simp_all add: mkdirs_def)
  then have cp: "refused (Copy source target) (mkdirs (path_dirname target) (files w)) = None"
    by (auto simp: refused_def)
  show ?thesis
    using fresh nofault mk cp
    by (simp add: linkOrCopy_def Let_def andThen_def pathExists_def perform_def copyFallback_def stat_None)
qed

theorem install_skips_pairs_that_exist_witness:
  "(case installCommand twoTargetEnv None installSkills halfInstalled of
      (Inr (Some [s1, s2]), w') \<Rightarrow>
         sm_target s1 = ''.claude'' \<and> skipped s1 = 1 \<and> installed s1 = 0 \<and> failed s1 = 0 \<and>
         sm_target s2 = ''.cursor'' \<and> skipped s2 = 0 \<and> installed s2 = 1 \<and> failed s2 = 0 \<and>
         (\<forall>c m. (c, Threw m) \<notin> set (calls w'))
    | other \<Rightarrow> False)"
proof -
  let ?c1 = "getTargetConfig ''.claude''" and ?c2 = "getTargetConfig ''.cursor''"
  let ?w0 = "halfInstalled\<lparr>calls := [(PathExists ''/home/u/.config/agent-share/config.json'', Ok)]\<rparr>"
  let ?matrix = "[(''foo'', [(''/proj/.claude/skills'', True), (''/proj/.cursor/skills'', False)])]"
  let ?w1 = "halfInstalled\<lparr>calls := [(PathExists ''/home/u/.config/agent-share/config.json'', Ok),
                                       (PathExists ''/proj/.claude/skills/foo'', Ok),
                                       (PathExists ''/proj/.cursor/skills/foo'', Ok)]\<rparr>"
  have cfg: "getConfig twoTargetEnv halfInstalled = (Map.empty, ?w0)"
    by (simp add: getConfig_def pathExists_def CONFIG_PATH_def path_defs twoTargetEnv_def quietEnv_def
          halfInstalled_def stat_None)
  have hyp: "fst (pathExists (path_join (path_join ''/proj'' (typeDir ?c1 Skills)) (item_id fooItem)) ?w0) \<and>
    \<not> fst (pathExists (path_join (path_join ''/proj'' (typeDir ?c2 Skills)) (item_id fooItem)) ?w0) \<and>
    chosenItems twoTargetEnv Skills = Answered [''foo''] \<and> item_id fooItem \<in> set [''foo'']"
    by (simp add: claudeSkills cursorSkills fooPaths fooItem_def halfInstalled_def twoTargetEnv_def
          quietEnv_def pathExists_def stat_None stat_plain)
  have sel0: "selectItemsWithExistenceCheck twoTargetEnv [fooItem] Skills
               \<lparr>sio_mode = Install,
                sio_targetDirs = [''/proj/.claude/skills'', ''/proj/.cursor/skills''],
                sio_selectAll = None\<rparr> ?w0 = (Inr ([fooItem], ?matrix), ?w1)"
    by (simp add: selectItemsWithExistenceCheck_def pathExists_def fooPaths fooItem_def
          halfInstalled_def twoTargetEnv_def quietEnv_def stat_None stat_plain)
  from install_skips_pairs_that_exist [THEN conjunct2, rule_format, OF hyp,
      of "''copy''" "''.claude''" "''.cursor''"]
  have counts: "\<forall>summaries w2.
      installToTargets twoTargetEnv Install ''copy'' False ''/proj'' [(Skills, ?matrix)]
        [(Skills, [fooItem])] [(''.claude'', ?c1), (''.cursor'', ?c2)] [] ?w1 = (summaries, w2)
      \<and> (\<forall>c m. (c, Threw m) \<notin> set (callsSince ?w1 w2)) \<longrightarrow>
      (\<exists>s1 s2. summaries = [s1, s2]
         \<and> sm_target s1 = ''.claude'' \<and> skipped s1 = 1 \<and> installed s1 = 0 \<and> failed s1 = 0
         \<and> sm_target s2 = ''.cursor'' \<and> skipped s2 = 0 \<and> installed s2 = 1 \<and> failed s2 = 0)"
    unfolding typeDir.simps claudeSkills cursorSkills sel0 by auto
  obtain summaries w2 where run:
    "installToTargets twoTargetEnv Install ''copy'' False ''/proj'' [(Skills, ?matrix)]
        [(Skills, [fooItem])] [(''.claude'', ?c1), (''.cursor'', ?c2)] [] ?w1 = (summaries, w2)"
    by (cases "installToTargets twoTargetEnv Install ''copy'' False ''/proj'' [(Skills, ?matrix)]
        [(Skills, [fooItem])] [(''.claude'', ?c1), (''.cursor'', ?c2)] [] ?w1") simp
  have dirs: "\<forall>q n. files ?w1 q = Some n \<longrightarrow> n = Directory"
    and there: "files ?w1 ''/repo/skills/foo'' = Some Directory"
    and fresh: "files ?w1 ''/proj/.cursor/skills/foo'' = None"
    and nofault: "\<forall>w c. faults twoTargetEnv w c = None"
    by (simp_all add: halfInstalled_def twoTargetEnv_def quietEnv_def)
  from linkOrCopy_copy_among_directories [OF dirs there fresh nofault]
  obtain fs where lc: "linkOrCopy twoTargetEnv ''/repo/skills/foo'' ''/proj/.cursor/skills/foo''
           \<lparr>lo_method = Some ''copy'', lo_force = Some False\<rparr> ?w1
           = (Inr \<lparr>lr_method = ''copy'', lr_source = ''/repo/skills/foo'',
                   lr_target = ''/proj/.cursor/skills/foo'', lr_success = True, lr_error = None\<rparr>,
              \<lparr>files = fs,
                calls = calls ?w1 @ [(PathExists ''/proj/.cursor/skills/foo'', Ok),
                                     (EnsureDir ''/proj/.cursor/skills'', Ok),
                                     (Copy ''/repo/skills/foo'' ''/proj/.cursor/skills/foo'', Ok)]\<rparr>)"
    by (auto simp: fooPaths)
  have w2: "calls w2 = calls ?w1 @ [(PathExists ''/proj/.cursor/skills/foo'', Ok),
                                    (EnsureDir ''/proj/.cursor/skills'', Ok),
                                    (Copy ''/repo/skills/foo'' ''/proj/.cursor/skills/foo'', Ok)]"
    using run lc
    by (auto simp: installItem_def Let_def claudeSkills cursorSkills fooPaths fooItem_def)
  then have quiet: "\<forall>c m. (c, Threw m) \<notin> set (callsSince ?w1 w2)"
    and all: "\<forall>c m. (c, Threw m) \<notin> set (calls w2)"
    by (auto simp: callsSince_def)
  from counts run quiet obtain s1 s2 where out: "summaries = [s1, s2]"
    "sm_target s1 = ''.claude''" "skipped s1 = 1" "installed s1 = 0" "failed s1 = 0"
    "sm_target s2 = ''.cursor''" "skipped s2 = 0" "installed s2 = 1" "failed s2 = 0"
    by blast
  have env: "cwd twoTargetEnv = ''/proj''" "io_mode installSkills = Install"
    "io_all installSkills = None"
    by (simp_all add: twoTargetEnv_def quietEnv_def installSkills_def)
  have src: "resolveSource twoTargetEnv None ?w0 = (Inr ''/proj'', ?w0)"
    by (simp add: resolveSource_def truthyStr_def env)
  have tgt: "determineTargets twoTargetEnv installSkills Map.empty ?w0
               = (Inr [''.claude'', ''.cursor''], ?w0)"
    by (simp add: determineTargets_def selectTargets_def truthyStr_def installSkills_def
          twoTargetEnv_def quietEnv_def)
  have tys: "determineTypes twoTargetEnv installSkills ?w0 = (Inr [Skills], ?w0)"
    by (simp add: determineTypes_def installSkills_def)
  have scan: "scanAvailable twoTargetEnv ''/proj'' [Skills] = [(Skills, [fooItem])]"
    by (simp add: scanAvailable_def twoTargetEnv_def quietEnv_def)
  have pick: "selectForTypes twoTargetEnv Install None ''/proj''
                [(''.claude'', ?c1), (''.cursor'', ?c2)] [(Skills, [fooItem])] [Skills] ([], []) ?w0
              = (Inr ([(Skills, [fooItem])], [(Skills, ?matrix)]), ?w1)"
    using sel0 by (simp add: claudeSkills cursorSkills fooItem_def)
  have inst: "confirmAndInstall twoTargetEnv installSkills Map.empty
                [(''.claude'', ?c1), (''.cursor'', ?c2)]
                ([(Skills, [fooItem])], [(Skills, ?matrix)]) ?w1 = (Inr (Some [s1, s2]), w2)"
    using run out(1)
    by (simp add: confirmAndInstall_def confirmAction_def andThen_def determineMethod_def
          truthyStr_def env twoTargetEnv_def [THEN arg_cong [of _ _ confirmed]] quietEnv_def
          installSkills_def [THEN arg_cong [of _ _ io_method]])
  have "installCommand twoTargetEnv None installSkills halfInstalled = (Inr (Some [s1, s2]), w2)"
    by (simp add: installCommand_def cfg andThen_def src tgt tys scan pick inst env exitOnError_def
          del: selectForTypes.simps)
  then show ?thesis using out all by simp
qed

section \<open>Properties of the summaries\<close>

lemma installItem_one_counter:
  assumes "installItem e mode method force wd tc ems type i (s, w) = (s', w')"
  shows "sm_target s' = sm_target s \<and> sm_targetName s' = sm_targetName s \<and>
         ((installed s' = installed s + 1 \<and> skipped s' = skipped s \<and> failed s' = failed s) \<or>
          (installed s' = installed s \<and> skipped s' = skipped s + 1 \<and> failed s' = failed s) \<or>
          (installed s' = installed s \<and> skipped s' = skipped s \<and> failed s' = failed s + 1))"
  using assms
  by (auto simp: installItem_def Let_def split: if_splits prod.splits sum.splits)

lemma installItems_count:
  "installItems e mode method force wd tc ems type items (s, w) = (s', w') \<Longrightarrow>
     installed s' + skipped s' + failed s' = installed s + skipped s + failed s + length items
     \<and> installed s \<le> installed s' \<and> skipped s \<le> skipped s' \<and> failed s \<le> failed s'
     \<and> sm_target s' = sm_target s"
proof (induction items arbitrary: s w)
  case Nil
  then show ?case by simp
next
  case (Cons i items)
  obtain s1 w1 where step: "installItem e mode method force wd tc ems type i (s, w) = (s1, w1)"
    by (cases "installItem e mode method force wd tc ems type i (s, w)") simp
  from Cons.prems step
  have rest: "installItems e mode method force wd tc ems type items (s1, w1) = (s', w')" by simp
  from installItem_one_counter [OF step] Cons.IH [OF rest] show ?case by auto
qed

lemma installSelected_count:
  "installSelected e mode method force wd tc ems selected (s, w) = (s', w') \<Longrightarrow>
     installed s' + skipped s' + failed s'
       = installed s + skipped s + failed s + length (concat (map snd selected))
     \<and> installed s \<le> installed s' \<and> skipped s \<le> skipped s' \<and> failed s \<le> failed s'
     \<and> sm_target s' = sm_target s"
proof (induction selected arbitrary: s w)
  case Nil
  then show ?case by simp
next
  case (Cons p selected)
  obtain type items where p: "p = (type, items)" by (cases p)
  obtain s1 w1 where step: "installItems e mode method force wd tc ems type items (s, w) = (s1, w1)"
    by (cases "installItems e mode method force wd tc ems type items (s, w)") simp
  from Cons.prems p step
  have rest: "installSelected e mode method force wd tc ems selected (s1, w1) = (s', w')" by simp
  from installItems_count [OF step] Cons.IH [OF rest] p show ?case by auto
qed

lemma installToTargets_summaries:
  "installToTargets e mode method force wd ems selected tcs acc w = (summaries, w') \<Longrightarrow>
     \<exists>new. summaries = acc @ new \<and> map sm_target new = map fst tcs \<and>
       (\<forall>s \<in> set new. installed s + skipped s + failed s = length (concat (map snd selected)))"
proof (induction tcs arbitrary: acc w)
  case Nil
  then show ?case by simp
next
  case (Cons p tcs)
  obtain key tc where p: "p = (key, tc)" by (cases p)
  let ?s0 = "\<lparr>sm_target = key,
               sm_targetName = (case TARGETS key of None \<Rightarrow> key
                                | Some c \<Rightarrow> if tc_name c = [] then key else tc_name c),
               installed = 0, skipped = 0, failed = 0\<rparr>"
  obtain s1 w1 where step: "installSelected e mode method force wd tc ems selected (?s0, w) = (s1, w1)"
    by (cases "installSelected e mode method force wd tc ems selected (?s0, w)") simp
  from Cons.prems p step
  have rest: "installToTargets e mode method force wd ems selected tcs (acc @ [s1]) w1 = (summaries, w')"
    by (simp add: Let_def)
  from Cons.IH [OF rest] obtain new where new: "summaries = (acc @ [s1]) @ new"
    "map sm_target new = map fst tcs"
    "\<forall>s \<in> set new. installed s + skipped s + failed s = length (concat (map snd selected))"
    by blast
  from installSelected_count [OF step]
  have s1: "installed s1 + skipped s1 + failed s1 = length (concat (map snd selected))"
    "sm_target s1 = key" by simp_all
  show ?case
    by (rule exI [of _ "s1 # new"]) (use new s1 p in auto)
qed

text \<open>
  C6. The installation returns one summary per target, in the order of the targets, and
  in each of them installed + skipped + failed is the number of selected items over all
  artifact types. The step for one item and one target adds one to exactly one of the
  three counters and leaves the other two as they are, so no counter ever decreases.
\<close>

theorem summary_counters_add_up:
  assumes "installToTargets e mode method force wd existenceMaps selected targetConfigs [] w
             = (summaries, w')"
  shows "map sm_target summaries = map fst targetConfigs
       \<and> (\<forall>s \<in> set summaries.
            installed s + skipped s + failed s = length (concat (map snd selected)))
       \<and> (\<forall>tc type i s w0 s1 w1.
            installItem e mode method force wd tc existenceMaps type i (s, w0) = (s1, w1) \<longrightarrow>
              (installed s1 = installed s + 1 \<and> skipped s1 = skipped s \<and> failed s1 = failed s) \<or>
              (installed s1 = installed s \<and> skipped s1 = skipped s + 1 \<and> failed s1 = failed s) \<or>
              (installed s1 = installed s \<and> skipped s1 = skipped s \<and> failed s1 = failed s + 1))"
proof -
  from installToTargets_summaries [OF assms]
  have "map sm_target summaries = map fst targetConfigs"
    and "\<forall>s \<in> set summaries.
            installed s + skipped s + failed s = length (concat (map snd selected))"
    by auto
  moreover have "\<forall>tc type i s w0 s1 w1.
            installItem e mode method force wd tc existenceMaps type i (s, w0) = (s1, w1) \<longrightarrow>
              (installed s1 = installed s + 1 \<and> skipped s1 = skipped s \<and> failed s1 = failed s) \<or>
              (installed s1 = installed s \<and> skipped s1 = skipped s + 1 \<and> failed s1 = failed s) \<or>
              (installed s1 = installed s \<and> skipped s1 = skipped s \<and> failed s1 = failed s + 1)"
    using installItem_one_counter by blast
  ultimately show ?thesis by blast
qed

theorem summary_counters_add_up_witness:
  "(case installToTargets twoTargetEnv Update ''copy'' True ''/proj'' []
           [(Skills, [fooItem]), (Rules, [fooItem, fooItem])]
           [(''.claude'', getTargetConfig ''.claude''), (''.cursor'', getTargetConfig ''.cursor'')]
           [] halfInstalled of
      (summaries, w') \<Rightarrow>
        map sm_target summaries = [''.claude'', ''.cursor''] \<and>
        (\<forall>s \<in> set summaries. installed s + skipped s + failed s = 3))"
proof -
  obtain summaries w' where run:
    "installToTargets twoTargetEnv Update ''copy'' True ''/proj'' []
           [(Skills, [fooItem]), (Rules, [fooItem, fooItem])]
           [(''.claude'', getTargetConfig ''.claude''), (''.cursor'', getTargetConfig ''.cursor'')]
           [] halfInstalled = (summaries, w')"
    by (cases "installToTargets twoTargetEnv Update ''copy'' True ''/proj'' []
           [(Skills, [fooItem]), (Rules, [fooItem, fooItem])]
           [(''.claude'', getTargetConfig ''.claude''), (''.cursor'', getTargetConfig ''.cursor'')]
           [] halfInstalled") simp
  from summary_counters_add_up [OF run] show ?thesis
    unfolding run by simp
qed

section \<open>Properties of the selection stage\<close>

lemma map_of_assign: "map_of (assign k v al) = (map_of al)(k \<mapsto> v)"
  by (induction al) (auto simp: fun_eq_iff)

lemma fst_set_assign: "fst ` set (assign k v al) = insert k (fst ` set al)"
  by (induction al) auto

lemma distinct_assign: "distinct (map fst al) \<Longrightarrow> distinct (map fst (assign k v al))"
  by (induction al) (auto simp: fst_set_assign)

lemma probeTargets_spec:
  "probeTargets itemId dirs em w = (em', w') \<Longrightarrow>
     files w' = files w \<and>
     (distinct (map fst em) \<longrightarrow> distinct (map fst em')) \<and>
     (\<forall>d. map_of em' d = (if d \<in> set dirs then Some (stat (files w) (path_join d itemId) \<noteq> None)
                          else map_of em d))"
proof (induction dirs arbitrary: em w)
  case Nil
  then show ?case by simp
next
  case (Cons d0 dirs)
  let ?w1 = "w\<lparr>calls := calls w @ [(PathExists (path_join d0 itemId), Ok)]\<rparr>"
  let ?em1 = "assign d0 (stat (files w) (path_join d0 itemId) \<noteq> None) em"
  from Cons.prems have rest: "probeTargets itemId dirs ?em1 ?w1 = (em', w')"
    by (simp add: pathExists_def)
  from Cons.IH [OF rest] show ?case
    by (auto simp: map_of_assign distinct_assign)
qed

lemma probeItems_spec:
  "probeItems items dirs m w = (m', w') \<Longrightarrow>
     files w' = files w \<and>
     (\<forall>itemId. if itemId \<in> item_id ` set items
        then (\<exists>em. map_of m' itemId = Some em \<and> distinct (map fst em) \<and>
               (\<forall>d. map_of em d = (if d \<in> set dirs then Some (stat (files w) (path_join d itemId) \<noteq> None)
                                   else None)))
        else map_of m' itemId = map_of m itemId)"
proof (induction items arbitrary: m w)
  case Nil
  then show ?case by simp
next
  case (Cons i items)
  obtain em w1 where inner: "probeTargets (item_id i) dirs [] w = (em, w1)"
    by (cases "probeTargets (item_id i) dirs [] w") simp
  from Cons.prems inner
  have rest: "probeItems items dirs (assign (item_id i) em m) w1 = (m', w')" by simp
  from probeTargets_spec [OF inner]
  have em: "files w1 = files w" "distinct (map fst em)"
    "\<forall>d. map_of em d = (if d \<in> set dirs then Some (stat (files w) (path_join d (item_id i)) \<noteq> None) else None)"
    by simp_all
  from Cons.IH [OF rest, unfolded em(1)]
  have files: "files w' = files w"
    and ih: "\<And>itemId. if itemId \<in> item_id ` set items
        then (\<exists>em'. map_of m' itemId = Some em' \<and> distinct (map fst em') \<and>
               (\<forall>d. map_of em' d = (if d \<in> set dirs then Some (stat (files w) (path_join d itemId) \<noteq> None)
                                    else None)))
        else map_of m' itemId = map_of (assign (item_id i) em m) itemId"
    by blast+
  have "if itemId \<in> item_id ` set (i # items)
        then (\<exists>em'. map_of m' itemId = Some em' \<and> distinct (map fst em') \<and>
               (\<forall>d. map_of em' d = (if d \<in> set dirs then Some (stat (files w) (path_join d itemId) \<noteq> None)
                                    else None)))
        else map_of m' itemId = map_of m itemId" for itemId
  proof (cases "itemId \<in> item_id ` set items")
    case True
    with ih [of itemId] show ?thesis by simp
  next
    case False
    with ih [of itemId] have eq: "map_of m' itemId = ((map_of m)(item_id i \<mapsto> em)) itemId"
      by (simp add: map_of_assign)
    show ?thesis
    proof (cases "itemId = item_id i")
      case True
      with eq em show ?thesis by simp
    next
      case False
      with eq \<open>itemId \<notin> item_id ` set items\<close> show ?thesis by simp
    qed
  qed
  with files show ?case by blast
qed

lemma list_ex_snd_distinct:
  assumes "distinct (map fst em)"
  shows "list_ex (\<lambda>v. v) (map snd em) = (\<exists>d. map_of em d = Some True)"
proof -
  have "list_ex (\<lambda>v. v) (map snd em) = (\<exists>d. (d, True) \<in> set em)"
    by (force simp: list_ex_iff)
  then show ?thesis using assms by simp
qed

lemma select_returns:
  "\<exists>existsInTargets w'. probeItems items (sio_targetDirs options) [] w = (existsInTargets, w') \<and>
     selectItemsWithExistenceCheck e items type options w =
       (if sio_selectAll options = Some True then
          Inr (if sio_mode options = Install
               then filter (\<lambda>i. \<not> existsInAny existsInTargets (item_id i)) items
               else items, existsInTargets)
        else (case chosenItems e type of
                Cancelled \<Rightarrow> Inl (ProcessExit 0)
              | Answered ids \<Rightarrow> Inr (filter (\<lambda>i. item_id i \<in> set ids) items, existsInTargets)),
        w')"
  by (cases "probeItems items (sio_targetDirs options) [] w")
     (auto simp: selectItemsWithExistenceCheck_def split: answer.splits)

text \<open>
  C4, as the code has it. The selection stage either returns, and then the file system
  is as before and, for every item and every target directory it was given, the matrix
  has a row for the item's id whose entry for that directory is the answer of
  \<^verbatim>\<open>fs.pathExists(path.join(targetDir, item.id))\<close>: \<open>true\<close> exactly when the path can
  be reached with symbolic links followed; or the user aborted the prompt and the process
  exits with code 0. So an item that can be reached in one target directory only has
  \<open>true\<close> there and \<open>false\<close> for every other directory.
\<close>

theorem existence_matrix_records_presence:
  "(\<exists>selected existsInTargets w'.
      selectItemsWithExistenceCheck e items type options w = (Inr (selected, existsInTargets), w')
      \<and> files w' = files w
      \<and> (\<forall>i \<in> set items. \<forall>targetDir \<in> set (sio_targetDirs options).
           \<exists>existsMap. map_of existsInTargets (item_id i) = Some existsMap \<and>
             map_of existsMap targetDir
               = Some (fst (pathExists (path_join targetDir (item_id i)) w))))
   \<or> (sio_selectAll options \<noteq> Some True \<and> chosenItems e type = Cancelled \<and>
       fst (selectItemsWithExistenceCheck e items type options w) = Inl (ProcessExit 0))"
proof -
  from select_returns [of items options w e type]
  obtain m w' where probe: "probeItems items (sio_targetDirs options) [] w = (m, w')"
    and sel: "selectItemsWithExistenceCheck e items type options w =
       (if sio_selectAll options = Some True then
          Inr (if sio_mode options = Install
               then filter (\<lambda>i. \<not> existsInAny m (item_id i)) items
               else items, m)
        else (case chosenItems e type of
                Cancelled \<Rightarrow> Inl (ProcessExit 0)
              | Answered ids \<Rightarrow> Inr (filter (\<lambda>i. item_id i \<in> set ids) items, m)),
        w')"
    by blast
  from probeItems_spec [OF probe]
  have files: "files w' = files w" by simp
  have matrix: "\<forall>i \<in> set items. \<forall>targetDir \<in> set (sio_targetDirs options).
           \<exists>existsMap. map_of m (item_id i) = Some existsMap \<and>
             map_of existsMap targetDir
               = Some (fst (pathExists (path_join targetDir (item_id i)) w))"
  proof (intro ballI)
    fix i targetDir
    assume i: "i \<in> set items" and d: "targetDir \<in> set (sio_targetDirs options)"
    from i have "item_id i \<in> item_id ` set items" by simp
    with probeItems_spec [OF probe]
    obtain em where "map_of m (item_id i) = Some em"
      "\<forall>d. map_of em d = (if d \<in> set (sio_targetDirs options)
                            then Some (stat (files w) (path_join d (item_id i)) \<noteq> None) else None)"
      by (metis (no_types, lifting))
    with d show "\<exists>existsMap. map_of m (item_id i) = Some existsMap \<and>
             map_of existsMap targetDir
               = Some (fst (pathExists (path_join targetDir (item_id i)) w))"
      by (simp add: pathExists_def)
  qed
  show ?thesis
  proof (cases "sio_selectAll options = Some True \<or> chosenItems e type \<noteq> Cancelled")
    case True
    then have "\<exists>selected. selectItemsWithExistenceCheck e items type options w = (Inr (selected, m), w')"
      using sel by (auto split: answer.splits)
    with files matrix show ?thesis by blast
  next
    case False
    then show ?thesis using sel by simp
  qed
qed

text \<open>
  C4, as the claim has it, fails for a symbolic link whose target is gone: the entry
  \<^verbatim>\<open>/proj/.claude/skills/foo\<close> is present in the target directory, and the matrix has
  \<open>false\<close> for it.
\<close>

theorem existence_matrix_counterexample:
  "files danglingInstalled ''/proj/.claude/skills/foo'' = Some (SymlinkTo ''/gone/skills/foo'') \<and>
   path_join ''/proj/.claude/skills'' (item_id fooItem) = ''/proj/.claude/skills/foo'' \<and>
   fst (selectItemsWithExistenceCheck twoTargetEnv [fooItem] Skills probeClaude danglingInstalled)
     = Inr ([fooItem], [(''foo'', [(''/proj/.claude/skills'', False)])])"
proof -
  have dangling: "stat (files danglingInstalled) ''/proj/.claude/skills/foo'' = None"
    by (simp add: danglingInstalled_def stat_link linkTarget_def nodeAt_None)
  show ?thesis
    by (simp add: selectItemsWithExistenceCheck_def pathExists_def probeClaude_def fooItem_def
          fooPaths dangling)
       (simp add: danglingInstalled_def)
qed

text \<open>
  C5. With the select-all flag the selection stage returns without asking. In install
  mode the selected items are exactly the items whose row of the returned matrix is
  \<open>false\<close> for every target directory, that is, the items for which \<^verbatim>\<open>fs.pathExists\<close>
  answers \<open>false\<close> in every target directory (an item found in one directory is left out
  for all of them); in update mode they are all the items.
\<close>

theorem select_all_returns_new_items:
  assumes "sio_selectAll options = Some True"
  shows "\<exists>selected existsInTargets w'.
           selectItemsWithExistenceCheck e items type options w
             = (Inr (selected, existsInTargets), w')
         \<and> (sio_mode options = Install \<longrightarrow>
              selected = filter (\<lambda>i. \<forall>targetDir \<in> set (sio_targetDirs options).
                                  \<exists>existsMap. map_of existsInTargets (item_id i) = Some existsMap
                                    \<and> map_of existsMap targetDir = Some False) items
              \<and> selected = filter (\<lambda>i. \<forall>targetDir \<in> set (sio_targetDirs options).
                                  \<not> fst (pathExists (path_join targetDir (item_id i)) w)) items)
         \<and> (sio_mode options = Update \<longrightarrow> selected = items)"
proof -
  from select_returns [of items options w e type] assms
  obtain m w' where probe: "probeItems items (sio_targetDirs options) [] w = (m, w')"
    and sel: "selectItemsWithExistenceCheck e items type options w =
       (Inr (if sio_mode options = Install
               then filter (\<lambda>i. \<not> existsInAny m (item_id i)) items
               else items, m), w')"
    by auto
  have any: "existsInAny m (item_id i)
               = (\<exists>d \<in> set (sio_targetDirs options). fst (pathExists (path_join d (item_id i)) w))"
    if "i \<in> set items" for i
  proof -
    from probeItems_spec [OF probe] that
    obtain em where em: "map_of m (item_id i) = Some em" "distinct (map fst em)"
      "\<forall>d. map_of em d = (if d \<in> set (sio_targetDirs options)
                            then Some (stat (files w) (path_join d (item_id i)) \<noteq> None) else None)"
      by (metis (no_types, lifting) image_eqI)
    show ?thesis
      using em by (auto simp: existsInAny_def list_ex_snd_distinct pathExists_def split: if_splits)
  qed
  have row: "(\<forall>d \<in> set (sio_targetDirs options).
               \<exists>em. map_of m (item_id i) = Some em \<and> map_of em d = Some False)
             = (\<forall>d \<in> set (sio_targetDirs options). \<not> fst (pathExists (path_join d (item_id i)) w))"
    if "i \<in> set items" for i
  proof -
    from probeItems_spec [OF probe] that
    obtain em where em: "map_of m (item_id i) = Some em"
      "\<forall>d. map_of em d = (if d \<in> set (sio_targetDirs options)
                            then Some (stat (files w) (path_join d (item_id i)) \<noteq> None) else None)"
      by (metis (no_types, lifting) image_eqI)
    show ?thesis using em by (auto simp: pathExists_def)
  qed
  have f1: "filter (\<lambda>i. \<not> existsInAny m (item_id i)) items
          = filter (\<lambda>i. \<forall>d \<in> set (sio_targetDirs options).
                      \<not> fst (pathExists (path_join d (item_id i)) w)) items"
    by (rule filter_cong) (auto simp: any)
  have f2: "filter (\<lambda>i. \<forall>d \<in> set (sio_targetDirs options).
                     \<exists>em. map_of m (item_id i) = Some em \<and> map_of em d = Some False) items
          = filter (\<lambda>i. \<forall>d \<in> set (sio_targetDirs options).
                      \<not> fst (pathExists (path_join d (item_id i)) w)) items"
    by (rule filter_cong) (auto simp: row)
  show ?thesis
  proof (cases "sio_mode options")
    case Install
    show ?thesis
      by (rule exI [of _ "filter (\<lambda>i. \<not> existsInAny m (item_id i)) items"], rule exI [of _ m],
          rule exI [of _ w']) (simp add: sel Install f1 f2)
  next
    case Update
    show ?thesis
      by (rule exI [of _ items], rule exI [of _ m], rule exI [of _ w']) (simp add: sel Update)
  qed
qed

lemma barPaths:
  "path_join ''/proj/.claude/skills'' ''bar'' = ''/proj/.claude/skills/bar''"
  "path_join ''/proj/.cursor/skills'' ''bar'' = ''/proj/.cursor/skills/bar''"
  by (simp_all add: path_defs)

lemma halfInstalled_probes:
  "fst (pathExists ''/proj/.claude/skills/foo'' halfInstalled)"
  "\<not> fst (pathExists ''/proj/.cursor/skills/foo'' halfInstalled)"
  "\<not> fst (pathExists ''/proj/.claude/skills/bar'' halfInstalled)"
  "\<not> fst (pathExists ''/proj/.cursor/skills/bar'' halfInstalled)"
  by (simp_all add: pathExists_def halfInstalled_def stat_None stat_plain)

theorem existence_matrix_records_presence_witness:
  "(case selectItemsWithExistenceCheck twoTargetEnv [fooItem, barItem] Skills
           \<lparr>sio_mode = Update,
            sio_targetDirs = [''/proj/.claude/skills'', ''/proj/.cursor/skills''],
            sio_selectAll = Some True\<rparr> halfInstalled of
      (Inr (selected, existsInTargets), w') \<Rightarrow>
        (\<exists>fooMap barMap.
           map_of existsInTargets ''foo'' = Some fooMap \<and>
           map_of fooMap ''/proj/.claude/skills'' = Some True \<and>
           map_of fooMap ''/proj/.cursor/skills'' = Some False \<and>
           map_of existsInTargets ''bar'' = Some barMap \<and>
           map_of barMap ''/proj/.claude/skills'' = Some False \<and>
           map_of barMap ''/proj/.cursor/skills'' = Some False)
    | other \<Rightarrow> False)"
proof -
  let ?opts = "\<lparr>sio_mode = Update,
            sio_targetDirs = [''/proj/.claude/skills'', ''/proj/.cursor/skills''],
            sio_selectAll = Some True\<rparr>"
  from existence_matrix_records_presence [of twoTargetEnv "[fooItem, barItem]" Skills ?opts halfInstalled]
  obtain selected m w' where
    sel: "selectItemsWithExistenceCheck twoTargetEnv [fooItem, barItem] Skills ?opts halfInstalled
            = (Inr (selected, m), w')"
    and matrix: "\<forall>i \<in> set [fooItem, barItem]. \<forall>targetDir \<in> set (sio_targetDirs ?opts).
           \<exists>existsMap. map_of m (item_id i) = Some existsMap \<and>
             map_of existsMap targetDir
               = Some (fst (pathExists (path_join targetDir (item_id i)) halfInstalled))"
    by auto
  from matrix have
    "\<exists>fooMap barMap.
           map_of m ''foo'' = Some fooMap \<and>
           map_of fooMap ''/proj/.claude/skills'' = Some True \<and>
           map_of fooMap ''/proj/.cursor/skills'' = Some False \<and>
           map_of m ''bar'' = Some barMap \<and>
           map_of barMap ''/proj/.claude/skills'' = Some False \<and>
           map_of barMap ''/proj/.cursor/skills'' = Some False"
    by (auto simp: fooItem_def barItem_def fooPaths barPaths halfInstalled_probes)
  then show ?thesis by (simp add: sel)
qed

theorem select_all_returns_new_items_witness:
  "sio_selectAll \<lparr>sio_mode = Install,
                  sio_targetDirs = [''/proj/.claude/skills'', ''/proj/.cursor/skills''],
                  sio_selectAll = Some True\<rparr> = Some True \<and>
   fst (selectItemsWithExistenceCheck twoTargetEnv [fooItem, barItem] Skills
          \<lparr>sio_mode = Install,
           sio_targetDirs = [''/proj/.claude/skills'', ''/proj/.cursor/skills''],
           sio_selectAll = Some True\<rparr> halfInstalled)
     = Inr ([barItem],
            [(''foo'', [(''/proj/.claude/skills'', True), (''/proj/.cursor/skills'', False)]),
             (''bar'', [(''/proj/.claude/skills'', False), (''/proj/.cursor/skills'', False)])])"
proof -
  let ?opts = "\<lparr>sio_mode = Install,
                  sio_targetDirs = [''/proj/.claude/skills'', ''/proj/.cursor/skills''],
                  sio_selectAll = Some True\<rparr>"
  have all: "sio_selectAll ?opts = Some True" by simp
  from select_all_returns_new_items [OF all, of twoTargetEnv "[fooItem, barItem]" Skills halfInstalled]
  obtain selected m w' where
    sel: "selectItemsWithExistenceCheck twoTargetEnv [fooItem, barItem] Skills ?opts halfInstalled
            = (Inr (selected, m), w')"
    and new: "selected = filter (\<lambda>i. \<forall>targetDir \<in> set (sio_targetDirs ?opts).
                \<not> fst (pathExists (path_join targetDir (item_id i)) halfInstalled)) [fooItem, barItem]"
    by auto
  have selected: "selected = [barItem]"
    unfolding new by (simp add: fooItem_def barItem_def fooPaths barPaths halfInstalled_probes)
  have "m = [(''foo'', [(''/proj/.claude/skills'', True), (''/proj/.cursor/skills'', False)]),
             (''bar'', [(''/proj/.claude/skills'', False), (''/proj/.cursor/skills'', False)])]"
    using sel
    by (simp add: selectItemsWithExistenceCheck_def pathExists_def fooItem_def barItem_def
          fooPaths barPaths halfInstalled_def stat_None stat_plain)
  with sel selected show ?thesis by simp
qed

section \<open>Properties of the persisted configuration\<close>

lemma nodeAt_write:
  "realpathAt hops fs p = Some q \<Longrightarrow> \<forall>s. n \<noteq> SymlinkTo s \<Longrightarrow> nodeAt hops (fs(q \<mapsto> n)) p = Some n"
proof (induction hops arbitrary: p)
  case 0
  then show ?case by simp
next
  case (Suc hops)
  show ?case
  proof (cases "p = q")
    case True
    with Suc.prems(2) show ?thesis by (cases n) simp_all
  next
    case False
    with Suc.prems(1) obtain s where link: "fs p = Some (SymlinkTo s)"
      and rest: "realpathAt hops fs (linkTarget p s) = Some q"
      by (auto split: option.splits node.splits)
    from Suc.IH [OF rest Suc.prems(2)] link False show ?thesis by simp
  qed
qed

text \<open>What has been written can be read back at the same path.\<close>

lemma stat_writeAt:
  "writeRefused p fs = None \<Longrightarrow> \<forall>s. n \<noteq> SymlinkTo s \<Longrightarrow> stat (writeAt p n fs) p = Some n"
  by (auto simp: writeRefused_def writeAt_def realpath_def stat_def nodeAt_write split: option.splits)

lemma nodeAt_mkdirs:
  "nodeAt hops (mkdirs d fs) p = nodeAt hops fs p \<or>
   (nodeAt hops (mkdirs d fs) p = Some Directory \<and> nodeAt hops fs p = None)"
proof (induction hops arbitrary: p)
  case 0
  show ?case by simp
next
  case (Suc hops)
  show ?case
  proof (cases "fs p")
    case None
    then show ?thesis by (simp add: mkdirs_def)
  next
    case (Some n)
    then have same: "mkdirs d fs p = Some n" by (simp add: mkdirs_def)
    show ?thesis
    proof (cases n)
      case (SymlinkTo s)
      with Suc.IH [of "linkTarget p s"] Some same show ?thesis by simp
    qed (use Some same in simp_all)
  qed
qed

text \<open>Making directories does not change what a read of a file gives.\<close>

lemma stat_mkdirs:
  "stat (mkdirs d fs) p = stat fs p \<or> (stat (mkdirs d fs) p = Some Directory \<and> stat fs p = None)"
  unfolding stat_def by (rule nodeAt_mkdirs)

lemma realpath_plain: "\<forall>s. fs p \<noteq> Some (SymlinkTo s) \<Longrightarrow> realpath fs p = Some p"
proof -
  assume plain: "\<forall>s. fs p \<noteq> Some (SymlinkTo s)"
  have hops: "(41::nat) = Suc 40" by simp
  from plain show ?thesis
    unfolding realpath_def hops realpathAt.simps by (auto split: option.splits node.splits)
qed

lemma getConfig_spec:
  assumes "getConfig e w = (config, w1)"
  shows "files w1 = files w \<and>
         ((\<forall>w0. faults e w0 (ReadJson (CONFIG_PATH e)) = None) \<longrightarrow> config = persisted e w)"
  using assms
  by (auto simp: getConfig_def readJson_def pathExists_def perform_def refused_def persisted_def
      split: option.splits node.splits if_splits)

text \<open>
  C10. Provided that reading the configuration file is not made to fail by the
  environment, \<open>setConfig\<close> reads the persisted document, overrides it with the updates
  and writes the result back: when it returns, the persisted document is the old one
  overridden by the updates, and whether it returns or throws, every field that the
  updates do not mention has the value it had before. (A read that fails is taken by
  \<open>getConfig\<close> for an empty configuration.)
\<close>

theorem setConfig_merges:
  assumes readable: "\<forall>w0. faults e w0 (ReadJson (CONFIG_PATH e)) = None"
    and run: "setConfig e updates w = (r, w')"
  shows "(r = Inr () \<longrightarrow> persisted e w' = persisted e w ++ updates)
       \<and> (\<forall>field. field \<notin> dom updates \<longrightarrow> persisted e w' field = persisted e w field)"
proof -
  obtain config w1 where cfg: "getConfig e w = (config, w1)"
    by (cases "getConfig e w") simp
  from getConfig_spec [OF cfg] readable
  have f1: "files w1 = files w" and config: "config = persisted e w" by simp_all
  let ?dir = "path_dirname (CONFIG_PATH e)"
  obtain r2 w2 where mk: "perform e (EnsureDir ?dir) w1 = (r2, w2)"
    by (cases "perform e (EnsureDir ?dir) w1") simp
  have p2: "persisted e w2 = persisted e w"
    using perform_cases [OF mk] f1 stat_mkdirs [of ?dir "files w" "CONFIG_PATH e"]
    by (auto simp: persisted_def split: option.splits node.splits)
  show ?thesis
  proof (cases r2)
    case (Inl x)
    with run cfg mk have "w' = w2" "r = Inl x"
      by (simp_all add: setConfig_def andThen_def)
    with p2 show ?thesis by simp
  next
    case (Inr u)
    with run cfg mk config
    have wr: "perform e (WriteJson (CONFIG_PATH e) (persisted e w ++ updates)) w2 = (r, w')"
      by (simp add: setConfig_def andThen_def)
    from perform_cases [OF wr] show ?thesis
    proof
      assume "\<exists>m. r = Inl (Error m) \<and>
        w' = w2\<lparr>calls := calls w2 @ [(WriteJson (CONFIG_PATH e) (persisted e w ++ updates), Threw m)]\<rparr>"
      then have "r \<noteq> Inr ()" "persisted e w' = persisted e w2"
        by (auto simp: persisted_def)
      with p2 show ?thesis by simp
    next
      assume "r = Inr () \<and>
        w' = \<lparr>files = effect (WriteJson (CONFIG_PATH e) (persisted e w ++ updates)) (files w2),
              calls = calls w2 @ [(WriteJson (CONFIG_PATH e) (persisted e w ++ updates), Ok)]\<rparr>
        \<and> refused (WriteJson (CONFIG_PATH e) (persisted e w ++ updates)) (files w2) = None
        \<and> faults e w2 (WriteJson (CONFIG_PATH e) (persisted e w ++ updates)) = None"
      then have "persisted e w' = persisted e w ++ updates"
        by (simp add: persisted_def refused_def stat_writeAt)
      then show ?thesis by (auto simp: map_add_def split: option.splits)
    qed
  qed
qed

theorem setConfig_merges_witness:
  "(\<forall>w0. faults quietEnv w0 (ReadJson (CONFIG_PATH quietEnv)) = None) \<and>
   persisted quietEnv configured = [''defaultTarget'' \<mapsto> JString ''.cursor''] \<and>
   (case configCommand quietEnv \<lparr>co_target = None, co_method = Some ''copy'', co_show = False\<rparr>
           configured of
      (Inr u, w') \<Rightarrow>
        persisted quietEnv w' ''defaultTarget'' = Some (JString ''.cursor'') \<and>
        persisted quietEnv w' ''linkMethod'' = Some (JString ''copy'')
    | (Inl x, w') \<Rightarrow> False)"
proof -
  let ?updates = "[''linkMethod'' \<mapsto> JString ''copy'']"
  have readable: "\<forall>w0. faults quietEnv w0 (ReadJson (CONFIG_PATH quietEnv)) = None"
    by (simp add: quietEnv_def)
  have cp: "CONFIG_PATH quietEnv = ''/home/u/.config/agent-share/config.json''"
    by (simp add: CONFIG_PATH_def path_defs quietEnv_def)
  have before: "persisted quietEnv configured = [''defaultTarget'' \<mapsto> JString ''.cursor'']"
    by (simp add: persisted_def cp configured_def stat_plain)
  have cmd: "configCommand quietEnv \<lparr>co_target = None, co_method = Some ''copy'', co_show = False\<rparr>
               configured = setConfig quietEnv ?updates configured"
    by (simp add: configCommand_def truthyStr_def)
  obtain r w' where run: "setConfig quietEnv ?updates configured = (r, w')"
    by (cases "setConfig quietEnv ?updates configured") simp
  have ok: "r = Inr ()"
    using run
    by (simp add: setConfig_def getConfig_def readJson_def pathExists_def perform_def refused_def
          andThen_def cp configured_def Let_def quietEnv_def [THEN arg_cong [of _ _ faults]]
          stat_plain stat_None isDirectory_def writeRefused_def realpath_plain mkdirs_def
          path_dirname_def)
  from setConfig_merges [OF readable run] ok before
  have "persisted quietEnv w' = [''defaultTarget'' \<mapsto> JString ''.cursor''] ++ ?updates" by simp
  then have "persisted quietEnv w' ''defaultTarget'' = Some (JString ''.cursor'')"
    "persisted quietEnv w' ''linkMethod'' = Some (JString ''copy'')"
    by simp_all
  with readable before cmd run ok show ?thesis by simp
qed

section \<open>Properties of parseGitHubUrl\<close>

lemma plusNot_sound:
  "plusNot ex s k = Some c \<Longrightarrow>
     \<exists>u v. s = u @ v \<and> u \<noteq> [] \<and> (\<forall>x \<in> set u. x \<notin> set ex) \<and> k v = Some c"
proof (induction s)
  case Nil
  then show ?case by simp
next
  case (Cons x xs)
  from Cons.prems have x: "x \<notin> set ex" by (simp split: if_splits)
  show ?case
  proof (cases "plusNot ex xs k")
    case None
    with Cons.prems x have "k xs = Some c" by simp
    with x show ?thesis by (intro exI [of _ "[x]"] exI [of _ xs]) simp
  next
    case (Some c')
    with Cons.prems x have "c' = c" by simp
    with Some Cons.IH obtain u v where "xs = u @ v" "u \<noteq> []" "\<forall>y \<in> set u. y \<notin> set ex" "k v = Some c"
      by blast
    with x show ?thesis by (intro exI [of _ "x # u"] exI [of _ v]) simp
  qed
qed

lemma matchRe_sound:
  "matchRe r s c k = Some c' \<Longrightarrow> \<exists>u v c''. s = u @ v \<and> u \<in> lang r \<and> k v c'' = Some c'"
proof (induction r arbitrary: s c k c')
  case (Chars l)
  then have "take (length l) s = l" "k (drop (length l) s) c = Some c'"
    by (simp_all split: if_splits)
  moreover from this have "s = l @ drop (length l) s"
    using append_take_drop_id [of "length l" s] by simp
  ultimately show ?case
    by (intro exI [of _ l] exI [of _ "drop (length l) s"] exI [of _ c]) simp
next
  case (PlusNot ex)
  then have "plusNot ex s (\<lambda>s'. k s' c) = Some c'" by simp
  from plusNot_sound [OF this] show ?case by auto
next
  case (Opt r)
  show ?case
  proof (cases "matchRe r s c k")
    case None
    with Opt.prems have "k s c = Some c'" by simp
    then show ?thesis by (intro exI [of _ "[]"] exI [of _ s] exI [of _ c]) simp
  next
    case (Some d)
    with Opt.prems have "matchRe r s c k = Some c'" by simp
    from Opt.IH [OF this] show ?thesis by auto
  qed
next
  case (Cat r1 r2)
  then have "matchRe r1 s c (\<lambda>s' d. matchRe r2 s' d k) = Some c'" by simp
  from Cat.IH(1) [OF this] obtain u1 v1 c1 where
    1: "s = u1 @ v1" "u1 \<in> lang r1" "matchRe r2 v1 c1 k = Some c'" by blast
  from Cat.IH(2) [OF 1(3)] obtain u2 v2 c2 where
    2: "v1 = u2 @ v2" "u2 \<in> lang r2" "k v2 c2 = Some c'" by blast
  show ?case
    by (intro exI [of _ "u1 @ u2"] exI [of _ v2] exI [of _ c2]) (use 1 2 in auto)
next
  case (Group n r)
  then have "matchRe r s c (\<lambda>s' d. k s' (d(n \<mapsto> take (length s - length s') s))) = Some c'"
    by simp
  from Group.IH [OF this] show ?case by auto
qed

lemma plusNot_complete:
  "u \<noteq> [] \<Longrightarrow> \<forall>x \<in> set u. x \<notin> set ex \<Longrightarrow> k v \<noteq> None \<Longrightarrow> plusNot ex (u @ v) k \<noteq> None"
proof (induction u)
  case Nil
  then show ?case by simp
next
  case (Cons x u)
  show ?case
  proof (cases "u = []")
    case True
    with Cons.prems show ?thesis by (auto split: option.splits)
  next
    case False
    with Cons have "plusNot ex (u @ v) k \<noteq> None" by simp
    with Cons.prems show ?thesis by (auto split: option.splits)
  qed
qed

lemma matchRe_complete:
  "u \<in> lang r \<Longrightarrow> \<forall>d. k v d \<noteq> None \<Longrightarrow> matchRe r (u @ v) c k \<noteq> None"
proof (induction r arbitrary: u v c k)
  case (Chars l)
  then show ?case by simp
next
  case (PlusNot ex)
  then show ?case by (simp add: plusNot_complete)
next
  case (Opt r)
  show ?case
  proof (cases "u \<in> lang r")
    case True
    have "matchRe r (u @ v) c k \<noteq> None"
      using Opt.IH [of u k v c] True Opt.prems(2) by blast
    then show ?thesis by (auto split: option.splits)
  next
    case False
    with Opt.prems have "u = []" by simp
    with Opt.prems(2) show ?thesis by (auto split: option.splits)
  qed
next
  case (Cat r1 r2)
  then obtain u1 u2 where u: "u = u1 @ u2" "u1 \<in> lang r1" "u2 \<in> lang r2" by auto
  have "\<forall>d. matchRe r2 (u2 @ v) d k \<noteq> None"
    using Cat.IH(2) [of u2 k v] u(3) Cat.prems(2) by blast
  then have "matchRe r1 (u1 @ (u2 @ v)) c (\<lambda>s' d. matchRe r2 s' d k) \<noteq> None"
    using Cat.IH(1) [of u1 "\<lambda>s' d. matchRe r2 s' d k" "u2 @ v" c] u(2) by blast
  then show ?case by (simp add: u)
next
  case (Group n r)
  then have "u \<in> lang r" by simp
  then have "matchRe r (u @ v) c
                (\<lambda>s' d. k s' (d(n \<mapsto> take (length (u @ v) - length s') (u @ v)))) \<noteq> None"
    using Group.IH [of u "\<lambda>s' d. k s' (d(n \<mapsto> take (length (u @ v) - length s') (u @ v)))" v c]
      Group.prems(2) by blast
  then show ?case by simp
qed

lemma matchWhole_iff_lang: "(matchWhole r input \<noteq> None) = (input \<in> lang r)"
proof
  assume "matchWhole r input \<noteq> None"
  then obtain c where "matchRe r input Map.empty (\<lambda>s c. if s = [] then Some c else None) = Some c"
    by (auto simp: matchWhole_def)
  from matchRe_sound [OF this] show "input \<in> lang r"
    by (auto split: if_splits)
next
  assume "input \<in> lang r"
  then have "matchRe r (input @ []) Map.empty (\<lambda>s c. if s = [] then Some c else None) \<noteq> None"
    using matchRe_complete [of input r "\<lambda>s c. if s = [] then Some c else None" "[]" Map.empty]
    by simp
  then show "matchWhole r input \<noteq> None" by (simp add: matchWhole_def)
qed

text \<open>
  C9. An input that is in the language of neither pattern makes \<open>parseGitHubUrl\<close> throw
  the error whose message is \<^verbatim>\<open>Invalid GitHub URL: \<close> followed by the input itself; the
  empty string is in neither language.
\<close>

theorem parseGitHubUrl_rejects_other_inputs:
  "(input \<notin> lang urlPattern \<and> input \<notin> lang shortPattern \<longrightarrow>
      parseGitHubUrl input = Inl (Error (''Invalid GitHub URL: '' @ input)))
   \<and> [] \<notin> lang urlPattern \<and> [] \<notin> lang shortPattern"
proof (intro conjI impI)
  assume "input \<notin> lang urlPattern \<and> input \<notin> lang shortPattern"
  then have "matchWhole urlPattern input = None" "matchWhole shortPattern input = None"
    using matchWhole_iff_lang by blast+
  then show "parseGitHubUrl input = Inl (Error (''Invalid GitHub URL: '' @ input))"
    by (simp add: parseGitHubUrl_def)
next
  have "matchWhole urlPattern [] = None"
    by (simp add: matchWhole_def urlPattern_def)
  then show "[] \<notin> lang urlPattern" using matchWhole_iff_lang by blast
next
  have "matchWhole shortPattern [] = None"
    by (simp add: matchWhole_def shortPattern_def notSlash_def)
  then show "[] \<notin> lang shortPattern" using matchWhole_iff_lang by blast
qed

lemma invalid_no_match:
  "matchWhole urlPattern ''invalid'' = None" "matchWhole shortPattern ''invalid'' = None"
  by (simp_all add: matchWhole_def urlPattern_def shortPattern_def notSlash_def anything_def)

theorem parseGitHubUrl_rejects_other_inputs_witness:
  "''invalid'' \<notin> lang urlPattern \<and> ''invalid'' \<notin> lang shortPattern \<and>
   parseGitHubUrl ''invalid'' = Inl (Error ''Invalid GitHub URL: invalid'') \<and>
   parseGitHubUrl [] = Inl (Error ''Invalid GitHub URL: '')"
proof -
  have no: "''invalid'' \<notin> lang urlPattern \<and> ''invalid'' \<notin> lang shortPattern"
    using invalid_no_match matchWhole_iff_lang by blast
  from parseGitHubUrl_rejects_other_inputs [of "''invalid''"] no
  have 1: "parseGitHubUrl ''invalid'' = Inl (Error ''Invalid GitHub URL: invalid'')" by simp
  from parseGitHubUrl_rejects_other_inputs [of "[]"]
  have 2: "parseGitHubUrl [] = Inl (Error ''Invalid GitHub URL: '')" by simp
  from no 1 2 show ?thesis by simp
qed

lemmas parse_defs = parseGitHubUrl_def matchWhole_def urlPattern_def shortPattern_def notSlash_def
  anything_def repoInfoOf_def

text \<open>The cases of the repository's own test file.\<close>

lemma parseGitHubUrl_tests:
  "parseGitHubUrl ''owner/repo''
     = Inr \<lparr>ri_owner = ''owner'', ri_repo = ''repo'', ri_branch = ''main'', ri_subpath = None\<rparr>"
  "parseGitHubUrl ''https://github.com/owner/repo''
     = Inr \<lparr>ri_owner = ''owner'', ri_repo = ''repo'', ri_branch = ''main'', ri_subpath = None\<rparr>"
  "ri_repo (projr (parseGitHubUrl ''https://github.com/owner/repo.git'')) = ''repo''"
  "parseGitHubUrl ''https://github.com/owner/repo/tree/develop''
     = Inr \<lparr>ri_owner = ''owner'', ri_repo = ''repo'', ri_branch = ''develop'', ri_subpath = None\<rparr>"
  "parseGitHubUrl ''https://github.com/owner/repo/tree/main/src/utils''
     = Inr \<lparr>ri_owner = ''owner'', ri_repo = ''repo'', ri_branch = ''main'',
            ri_subpath = Some ''src/utils''\<rparr>"
  "parseGitHubUrl ''owner/repo/develop''
     = Inr \<lparr>ri_owner = ''owner'', ri_repo = ''repo'', ri_branch = ''develop'', ri_subpath = None\<rparr>"
  by (simp_all add: parse_defs)

text \<open>
  C7. The order of the two patterns, the default branch, the subpath of the URL form and
  the branch of the shorthand form are as claimed (see the tests above), but the repository
  name does not lose a trailing \<^verbatim>\<open>.git\<close>: \<^verbatim>\<open>replace('.git', '')\<close> removes the first
  occurrence of \<^verbatim>\<open>.git\<close>, which in \<^verbatim>\<open>octo.github.io\<close> is inside the name. The name comes
  out as \<^verbatim>\<open>octohub.io.git\<close> with the suffix still there, and as \<^verbatim>\<open>octohub.io\<close> when
  there was no suffix to strip.
\<close>

theorem parseGitHubUrl_removes_first_git:
  "parseGitHubUrl ''https://github.com/octo/octo.github.io.git''
     = Inr \<lparr>ri_owner = ''octo'', ri_repo = ''octohub.io.git'', ri_branch = ''main'',
            ri_subpath = None\<rparr>
   \<and> parseGitHubUrl ''https://github.com/octo/octo.github.io''
     = Inr \<lparr>ri_owner = ''octo'', ri_repo = ''octohub.io'', ri_branch = ''main'',
            ri_subpath = None\<rparr>"
  by (simp add: parse_defs)

section \<open>Properties of fetchRepo\<close>

text \<open>What is left of fetchRepo once a response with a success status is there.\<close>

lemma perform_calls:
  "perform e c w = (r, w') \<Longrightarrow> \<exists>oc. calls w' = calls w @ [(c, oc)]"
  by (auto dest!: perform_cases)

lemma unpack_calls:
  assumes "andThen (perform e (WriteFile tarPath body))
             (\<lambda>_. andThen (perform e (TarExtract tempDir tarPath))
                (\<lambda>_. andThen (perform e (Remove tarPath))
                   (\<lambda>_ w6. (Inr tempDir, w6)))) w = (res, w')"
  shows "\<exists>cs. calls w' = calls w @ cs \<and> (\<forall>c \<in> set cs. \<not> isFetch (fst c))"
proof -
  obtain r1 w1 where 1: "perform e (WriteFile tarPath body) w = (r1, w1)"
    by (cases "perform e (WriteFile tarPath body) w") simp
  obtain r2 w2 where 2: "perform e (TarExtract tempDir tarPath) w1 = (r2, w2)"
    by (cases "perform e (TarExtract tempDir tarPath) w1") simp
  obtain r3 w3 where 3: "perform e (Remove tarPath) w2 = (r3, w3)"
    by (cases "perform e (Remove tarPath) w2") simp
  from perform_calls [OF 1] perform_calls [OF 2] perform_calls [OF 3]
  obtain o1 o2 o3 where c: "calls w1 = calls w @ [(WriteFile tarPath body, o1)]"
    "calls w2 = calls w1 @ [(TarExtract tempDir tarPath, o2)]"
    "calls w3 = calls w2 @ [(Remove tarPath, o3)]" by blast
  from assms 1 2 3 have "w' = w1 \<or> w' = w2 \<or> w' = w3"
    by (auto simp: andThen_def split: sum.splits)
  with c show ?thesis by auto
qed

lemma fetch_cases:
  "fetch e url w = (r, w') \<Longrightarrow>
     (\<exists>m. r = Inl (Error m) \<and> calls w' = calls w @ [(Fetch url, Threw m)]) \<or>
     (\<exists>body. r = Inr (True, body) \<and> calls w' = calls w @ [(Fetch url, Ok)]) \<or>
     (\<exists>body. r = Inr (False, body) \<and> calls w' = calls w @ [(Fetch url, NotOk)])"
  by (cases "fetchAnswer e w url") (auto simp: fetch_def split: if_splits)

lemma tryBranches_main:
  assumes "tryBranches e owner repo [''main'', ''master''] None w = (r, w')"
  shows "(\<exists>m. r = Inl (Error m) \<and> calls w' = calls w @ [(Fetch (tarUrl owner repo ''main''), Threw m)])
       \<or> (\<exists>body. r = Inr (Some (True, body)) \<and>
             calls w' = calls w @ [(Fetch (tarUrl owner repo ''main''), Ok)])
       \<or> (\<exists>m. r = Inl (Error m) \<and>
             calls w' = calls w @ [(Fetch (tarUrl owner repo ''main''), NotOk),
                                   (Fetch (tarUrl owner repo ''master''), Threw m)])
       \<or> (\<exists>body. r = Inr (Some (True, body)) \<and>
             calls w' = calls w @ [(Fetch (tarUrl owner repo ''main''), NotOk),
                                   (Fetch (tarUrl owner repo ''master''), Ok)])
       \<or> (\<exists>body. r = Inr (Some (False, body)) \<and>
             calls w' = calls w @ [(Fetch (tarUrl owner repo ''main''), NotOk),
                                   (Fetch (tarUrl owner repo ''master''), NotOk)])"
proof -
  obtain r1 w1 where 1: "fetch e (tarUrl owner repo ''main'') w = (r1, w1)"
    by (cases "fetch e (tarUrl owner repo ''main'') w") simp
  obtain r2 w2 where 2: "fetch e (tarUrl owner repo ''master'') w1 = (r2, w2)"
    by (cases "fetch e (tarUrl owner repo ''master'') w1") simp
  from fetch_cases [OF 1] fetch_cases [OF 2] assms 1 2 show ?thesis
    by (elim disjE exE conjE) auto
qed

text \<open>
  C8, as the code has it. For an input that is not a local path and parses with branch
  \<^verbatim>\<open>main\<close>, the requests that \<open>fetchRepo\<close> makes are one of: none (the temporary directory
  could not be made); \<^verbatim>\<open>main\<close> alone, rejected, and the rejection is what \<open>fetchRepo\<close>
  throws; \<^verbatim>\<open>main\<close> alone, answered with a success status; \<^verbatim>\<open>main\<close> answered with a
  non-success status and then \<^verbatim>\<open>master\<close>, once, which is rejected (and that is thrown),
  answered with a success status, or answered with a non-success status, and then
  \<open>fetchRepo\<close> throws \<^verbatim>\<open>Failed to fetch: Repository not found or not accessible\<close>.
\<close>

theorem fetchRepo_falls_back_to_master:
  assumes notLocal: "files w input = None"
    and parsed: "parseGitHubUrl input = Inr info"
    and main: "ri_branch info = ''main''"
    and run: "fetchRepo e input w = (res, w')"
  shows "(fetchesSince w w' = [] \<and> (\<exists>m. res = Inl (Error m)))
       \<or> (\<exists>m. fetchesSince w w' = [(Fetch (tarUrl (ri_owner info) (ri_repo info) ''main''), Threw m)]
              \<and> res = Inl (Error m))
       \<or> fetchesSince w w' = [(Fetch (tarUrl (ri_owner info) (ri_repo info) ''main''), Ok)]
       \<or> (\<exists>m. fetchesSince w w' = [(Fetch (tarUrl (ri_owner info) (ri_repo info) ''main''), NotOk),
                                    (Fetch (tarUrl (ri_owner info) (ri_repo info) ''master''), Threw m)]
              \<and> res = Inl (Error m))
       \<or> fetchesSince w w' = [(Fetch (tarUrl (ri_owner info) (ri_repo info) ''main''), NotOk),
                              (Fetch (tarUrl (ri_owner info) (ri_repo info) ''master''), Ok)]
       \<or> (fetchesSince w w' = [(Fetch (tarUrl (ri_owner info) (ri_repo info) ''main''), NotOk),
                               (Fetch (tarUrl (ri_owner info) (ri_repo info) ''master''), NotOk)]
            \<and> res = Inl (Error ''Failed to fetch: Repository not found or not accessible''))"
proof -
  let ?owner = "ri_owner info" and ?repo = "ri_repo info"
  let ?w1 = "w\<lparr>calls := calls w @ [(PathExists input, Ok)]\<rparr>"
  let ?tempDir = "path_joinl [tmpdir e, ''agent-share'', ?owner @ ''-'' @ ?repo @ ''-'' @ showNat (now e ?w1)]"
  let ?tarPath = "path_join ?tempDir ''repo.tar.gz''"
  let ?unpack = "\<lambda>body. andThen (perform e (WriteFile ?tarPath body))
             (\<lambda>_. andThen (perform e (TarExtract ?tempDir ?tarPath))
                (\<lambda>_. andThen (perform e (Remove ?tarPath))
                   (\<lambda>_ w6. (Inr ?tempDir, w6))))"
  obtain r2 w2 where mk: "perform e (EnsureDir ?tempDir) ?w1 = (r2, w2)"
    by (cases "perform e (EnsureDir ?tempDir) ?w1") simp
  from perform_calls [OF mk] obtain oc where
    c2: "calls w2 = calls w @ [(PathExists input, Ok), (EnsureDir ?tempDir, oc)]" by auto
  show ?thesis
  proof (cases r2)
    case (Inl x)
    with run notLocal parsed main mk have "res = Inl x" "w' = w2"
      by (simp_all add: fetchRepo_def pathExists_def andThen_def Let_def stat_None)
    moreover from perform_cases [OF mk] Inl obtain m where "x = Error m" by auto
    ultimately show ?thesis using c2 by (simp add: fetchesSince_def callsSince_def)
  next
    case (Inr u)
    obtain r3 w3 where tb: "tryBranches e ?owner ?repo [''main'', ''master''] None w2 = (r3, w3)"
      by (cases "tryBranches e ?owner ?repo [''main'', ''master''] None w2") simp
    note unfold = fetchRepo_def pathExists_def andThen_def Let_def stat_None
    from tryBranches_main [OF tb] show ?thesis
    proof (elim disjE exE conjE)
      fix m assume *: "r3 = Inl (Error m)"
        "calls w3 = calls w2 @ [(Fetch (tarUrl ?owner ?repo ''main''), Threw m)]"
      with run notLocal parsed main mk Inr tb have "res = Inl (Error m)" "w' = w3"
        by (simp_all add: unfold)
      with c2 * show ?thesis by (simp add: fetchesSince_def callsSince_def)
    next
      fix body assume a: "r3 = Inr (Some (True, body))"
        "calls w3 = calls w2 @ [(Fetch (tarUrl ?owner ?repo ''main''), Ok)]"
      with run notLocal parsed main mk Inr tb have "?unpack body w3 = (res, w')"
        by (simp add: unfold)
      from unpack_calls [OF this] a c2 show ?thesis
        by (auto simp: fetchesSince_def callsSince_def filter_empty_conv)
    next
      fix m assume *: "r3 = Inl (Error m)"
        "calls w3 = calls w2 @ [(Fetch (tarUrl ?owner ?repo ''main''), NotOk),
                                (Fetch (tarUrl ?owner ?repo ''master''), Threw m)]"
      with run notLocal parsed main mk Inr tb have "res = Inl (Error m)" "w' = w3"
        by (simp_all add: unfold)
      with c2 * show ?thesis by (simp add: fetchesSince_def callsSince_def)
    next
      fix body assume a: "r3 = Inr (Some (True, body))"
        "calls w3 = calls w2 @ [(Fetch (tarUrl ?owner ?repo ''main''), NotOk),
                                (Fetch (tarUrl ?owner ?repo ''master''), Ok)]"
      with run notLocal parsed main mk Inr tb have "?unpack body w3 = (res, w')"
        by (simp add: unfold)
      from unpack_calls [OF this] a c2 show ?thesis
        by (auto simp: fetchesSince_def callsSince_def filter_empty_conv)
    next
      fix body assume *: "r3 = Inr (Some (False, body))"
        "calls w3 = calls w2 @ [(Fetch (tarUrl ?owner ?repo ''main''), NotOk),
                                (Fetch (tarUrl ?owner ?repo ''master''), NotOk)]"
      with run notLocal parsed main mk Inr tb
      have "res = Inl (Error ''Failed to fetch: Repository not found or not accessible'')" "w' = w3"
        by (simp_all add: unfold)
      with c2 * show ?thesis by (simp add: fetchesSince_def callsSince_def)
    qed
  qed
qed


lemma parse_owner_repo:
  "parseGitHubUrl ''owner/repo''
     = Inr \<lparr>ri_owner = ''owner'', ri_repo = ''repo'', ri_branch = ''main'', ri_subpath = None\<rparr>"
  by (simp add: parse_defs)

lemma tempDir_owner_repo:
  "path_joinl [''/tmp'', ''agent-share'', ''owner'' @ ''-'' @ ''repo'' @ ''-'' @ showNat 0]
     = ''/tmp/agent-share/owner-repo-0''"
  by (simp add: path_defs showNat.simps [of 0] digitOf_def)

lemma tempDir_made:
  "refused (EnsureDir ''/tmp/agent-share/owner-repo-0'') [''/source'' \<mapsto> Directory] = None"
  by (rule ensureDir_among_directories) simp

text \<open>
  C8, as the claim has it, fails: when the request for \<^verbatim>\<open>main\<close> is rejected (a network
  error), \<^verbatim>\<open>master\<close> is not tried.
\<close>

theorem fetchRepo_network_error_counterexample:
  "fst (fetchRepo quietEnv ''owner/repo'' sourceOnly) = Inl (Error ''fetch failed'') \<and>
   fetchesSince sourceOnly (snd (fetchRepo quietEnv ''owner/repo'' sourceOnly))
     = [(Fetch ''https://github.com/owner/repo/archive/main.tar.gz'', Threw ''fetch failed'')]"
  by (simp add: fetchRepo_def parse_owner_repo pathExists_def andThen_def perform_def tempDir_made
        fetch_def tarUrl_def fetchesSince_def callsSince_def quietEnv_def sourceOnly_def
        tempDir_owner_repo [simplified] Let_def stat_None)

theorem fetchRepo_falls_back_to_master_witness:
  "files sourceOnly ''owner/repo'' = None \<and>
   parseGitHubUrl ''owner/repo''
     = Inr \<lparr>ri_owner = ''owner'', ri_repo = ''repo'', ri_branch = ''main'', ri_subpath = None\<rparr> \<and>
   fetchesSince sourceOnly (snd (fetchRepo notFoundEnv ''owner/repo'' sourceOnly))
     = [(Fetch ''https://github.com/owner/repo/archive/main.tar.gz'', NotOk),
        (Fetch ''https://github.com/owner/repo/archive/master.tar.gz'', NotOk)] \<and>
   fst (fetchRepo notFoundEnv ''owner/repo'' sourceOnly)
     = Inl (Error ''Failed to fetch: Repository not found or not accessible'')"
proof -
  let ?info = "\<lparr>ri_owner = ''owner'', ri_repo = ''repo'', ri_branch = ''main'', ri_subpath = None\<rparr>"
  obtain res w' where run: "fetchRepo notFoundEnv ''owner/repo'' sourceOnly = (res, w')"
    by (cases "fetchRepo notFoundEnv ''owner/repo'' sourceOnly") simp
  have notLocal: "files sourceOnly ''owner/repo'' = None"
    by (simp add: sourceOnly_def)
  have main: "ri_branch ?info = ''main''" by simp
  have fetches: "fetchesSince sourceOnly w'
     = [(Fetch ''https://github.com/owner/repo/archive/main.tar.gz'', NotOk),
        (Fetch ''https://github.com/owner/repo/archive/master.tar.gz'', NotOk)]"
    using run
    by (auto simp add: fetchRepo_def parse_owner_repo pathExists_def andThen_def perform_def tempDir_made
        fetch_def tarUrl_def fetchesSince_def callsSince_def quietEnv_def notFoundEnv_def
        sourceOnly_def tempDir_owner_repo [simplified] Let_def stat_None)
  from fetchRepo_falls_back_to_master [OF notLocal parse_owner_repo main run] fetches
  have "res = Inl (Error ''Failed to fetch: Repository not found or not accessible'')"
    by (simp add: tarUrl_def)
  with notLocal parse_owner_repo fetches run show ?thesis by simp
qed

end
